theory Spec2Isabelle
  imports Complex_Main
begin

section \<open>JavaScript values used by the upload service\<close>

text \<open>
  The service of \<^verbatim>\<open>src/v2/services/cloud-storage/upload.ts\<close> handles file sizes and
  usage totals as JavaScript numbers and keeps them in Redis and in the database as
  strings. A number is a double: \<open>NaN\<close>, an infinity, or a finite value, held here as the
  rational it denotes (the two zeros are one value; the service never tells them apart).
  \<open>jsval\<close> is what a read of a hash field or of a database column gives: a string,
  \<open>null\<close> or \<open>undefined\<close>. A string is held as the bytes of its UTF-8 form.
\<close>

datatype jsnum = NaN | PosInf | NegInf | Fin rat

datatype jsval = Undefined | Null | Str string

subsection \<open>Decimal digits\<close>

definition decimalDigits :: string where
  "decimalDigits = ''0123456789''"

definition digit_char :: "nat \<Rightarrow> char" where
  "digit_char d = decimalDigits ! d"

function digitsOf :: "int \<Rightarrow> string" where
  "digitsOf n =
     (if n < 10 then [digit_char (nat n)]
      else digitsOf (n div 10) @ [digit_char (nat (n mod 10))])"
  by pat_completeness auto
termination
  by (relation "measure nat") auto

declare digitsOf.simps [simp del]

fun index_of :: "'a \<Rightarrow> 'a list \<Rightarrow> nat option" where
  "index_of x [] = None"
| "index_of x (y # ys) = (if x = y then Some 0 else map_option Suc (index_of x ys))"

definition digit_val :: "char \<Rightarrow> nat option" where
  "digit_val c = index_of c decimalDigits"

definition isDigit :: "char \<Rightarrow> bool" where
  "isDigit c = (c \<in> set decimalDigits)"

fun parseDigits :: "int \<Rightarrow> string \<Rightarrow> int option" where
  "parseDigits acc [] = Some acc"
| "parseDigits acc (c # cs) =
     (case digit_val c of None \<Rightarrow> None | Some d \<Rightarrow> parseDigits (10 * acc + int d) cs)"

definition parseUnsigned :: "string \<Rightarrow> int option" where
  "parseUnsigned s = (if s = [] then None else parseDigits 0 s)"

subsection \<open>Rounding to a double\<close>

text \<open>
  \<open>roundDouble\<close> is the double nearest to a rational, ties going to the even significand
  (IEEE 754 binary64): 53 bits of significand at the binary exponent of the value, the
  exponent never below \<open>-1022\<close>, and an infinity once the rounded value reaches \<open>2^1024\<close>,
  that is when the exponent is above 1023 or the significand rounds up to \<open>2^53\<close> at
  exponent 1023. \<open>bitlen\<close> is the number of bits of a positive integer and \<open>ilog2\<close> the
  binary exponent of a positive rational.
\<close>

function bitlen :: "int \<Rightarrow> nat" where
  "bitlen n = (if n \<le> 0 then 0 else Suc (bitlen (n div 2)))"
  by pat_completeness auto
termination
  by (relation "measure nat") auto

declare bitlen.simps [simp del]

definition pow2 :: "int \<Rightarrow> rat" where
  "pow2 k = (if 0 \<le> k then 2 ^ nat k else 1 / 2 ^ nat (- k))"

definition pow10 :: "int \<Rightarrow> rat" where
  "pow10 k = (if 0 \<le> k then 10 ^ nat k else 1 / 10 ^ nat (- k))"

definition ilog2 :: "rat \<Rightarrow> int" where
  "ilog2 a =
     (if 1 \<le> a then int (bitlen \<lfloor>a\<rfloor>) - 1
      else (let j = int (bitlen \<lfloor>1 / a\<rfloor>) - 1
            in if a * pow2 j = 1 then - j else - j - 1))"

definition roundHalfEven :: "rat \<Rightarrow> int" where
  "roundHalfEven x =
     (let f = \<lfloor>x\<rfloor>; d = x - of_int f
      in if d < 1 / 2 then f else if 1 / 2 < d then f + 1 else if even f then f else f + 1)"

definition roundDouble :: "rat \<Rightarrow> jsnum" where
  "roundDouble q =
     (if q = 0 then Fin 0
      else (let a = \<bar>q\<bar>;
                e = max (ilog2 a) (- 1022);
                ulp = pow2 (e - 52);
                m = roundHalfEven (a / ulp)
            in if 1024 \<le> e \<or> (e = 1023 \<and> m = 2 ^ 53) then (if 0 < q then PosInf else NegInf)
               else Fin (if 0 < q then of_int m * ulp else - (of_int m * ulp))))"

subsection \<open>Addition, comparison and truth\<close>

text \<open>\<open>x + y\<close> on numbers: the exact sum of two finite values, rounded.\<close>

fun jsAdd :: "jsnum \<Rightarrow> jsnum \<Rightarrow> jsnum" where
  "jsAdd (Fin a) (Fin b) = roundDouble (a + b)"
| "jsAdd NaN y = NaN"
| "jsAdd x NaN = NaN"
| "jsAdd PosInf NegInf = NaN"
| "jsAdd NegInf PosInf = NaN"
| "jsAdd PosInf y = PosInf"
| "jsAdd x PosInf = PosInf"
| "jsAdd NegInf y = NegInf"
| "jsAdd x NegInf = NegInf"

text \<open>\<open>x > y\<close> on numbers: false when either is \<open>NaN\<close>.\<close>

fun jsGreater :: "jsnum \<Rightarrow> jsnum \<Rightarrow> bool" where
  "jsGreater (Fin a) (Fin b) = (b < a)"
| "jsGreater NaN y = False"
| "jsGreater x NaN = False"
| "jsGreater x PosInf = False"
| "jsGreater PosInf y = True"
| "jsGreater NegInf y = False"
| "jsGreater x NegInf = True"

fun negate :: "jsnum \<Rightarrow> jsnum" where
  "negate NaN = NaN"
| "negate PosInf = NegInf"
| "negate NegInf = PosInf"
| "negate (Fin a) = Fin (- a)"

text \<open>\<open>!v\<close>: \<open>undefined\<close>, \<open>null\<close> and the empty string are falsy.\<close>

fun falsy :: "jsval \<Rightarrow> bool" where
  "falsy Undefined = True"
| "falsy Null = True"
| "falsy (Str s) = (s = [])"

text \<open>\<open>v || undefined\<close> on a hash field.\<close>

definition orUndefined :: "jsval \<Rightarrow> jsval" where
  "orUndefined v = (if falsy v then Undefined else v)"

text \<open>\<open>x || 0\<close> on a number: \<open>NaN\<close> and zero are falsy.\<close>

fun orZero :: "jsnum \<Rightarrow> jsnum" where
  "orZero NaN = Fin 0"
| "orZero x = x"

definition isNaN :: "jsnum \<Rightarrow> bool" where
  "isNaN x = (x = NaN)"

subsection \<open>Number\<close>

text \<open>
  \<open>Number(v)\<close>: \<open>undefined\<close> is \<open>NaN\<close>, \<open>null\<close> is \<open>0\<close>, and a string is read by the
  grammar of \<open>StringToNumber\<close>. White space and line terminators around the literal are
  dropped (tab, line feed, vertical tab, form feed, carriage return, space, U+00A0,
  U+1680, U+2000 to U+200A, U+2028, U+2029, U+202F, U+205F, U+3000, U+FEFF); nothing left
  is \<open>0\<close>. The literal is a hexadecimal, octal or binary integer with its prefix and no
  sign, or a decimal with an optional sign: \<open>Infinity\<close>, or digits with an optional
  fraction and exponent, digits on at least one side of the point. Anything else is
  \<open>NaN\<close>. The value is rounded to the nearest double.
\<close>

fun skipWhiteSpace :: "string \<Rightarrow> string" where
  "skipWhiteSpace [] = []"
| "skipWhiteSpace (c # cs) =
     (if c \<in> set [CHR 0x09, CHR 0x0A, CHR 0x0B, CHR 0x0C, CHR 0x0D, CHR 0x20] then skipWhiteSpace cs
      else if c = CHR 0xC2 then
        (case cs of d # ds \<Rightarrow> if d = CHR 0xA0 then skipWhiteSpace ds else c # cs | [] \<Rightarrow> c # cs)
      else if c \<in> set [CHR 0xE1, CHR 0xE2, CHR 0xE3, CHR 0xEF] then
        (case cs of
           d # f # fs \<Rightarrow>
             if (c, d, f) \<in> set [(CHR 0xE1, CHR 0x9A, CHR 0x80), (CHR 0xE2, CHR 0x80, CHR 0xA8),
                                 (CHR 0xE2, CHR 0x80, CHR 0xA9), (CHR 0xE2, CHR 0x80, CHR 0xAF),
                                 (CHR 0xE2, CHR 0x81, CHR 0x9F), (CHR 0xE3, CHR 0x80, CHR 0x80),
                                 (CHR 0xEF, CHR 0xBB, CHR 0xBF)]
                \<or> (c = CHR 0xE2 \<and> d = CHR 0x80
                    \<and> f \<in> set [CHR 0x80, CHR 0x81, CHR 0x82, CHR 0x83, CHR 0x84, CHR 0x85,
                                 CHR 0x86, CHR 0x87, CHR 0x88, CHR 0x89, CHR 0x8A])
             then skipWhiteSpace fs else c # cs
         | _ \<Rightarrow> c # cs)
      else c # cs)"

declare skipWhiteSpace.simps [simp del]

text \<open>\<open>trimRight\<close> cuts a string where only white space follows.\<close>

fun trimRight :: "string \<Rightarrow> string" where
  "trimRight [] = []"
| "trimRight (c # cs) = (if skipWhiteSpace (c # cs) = [] then [] else c # trimRight cs)"

declare trimRight.simps [simp del]

definition hexDigitValue :: "char \<Rightarrow> nat option" where
  "hexDigitValue c =
     (case index_of c ''0123456789abcdef'' of
        Some d \<Rightarrow> Some d
      | None \<Rightarrow> index_of c ''0123456789ABCDEF'')"

fun radixDigits :: "nat \<Rightarrow> int \<Rightarrow> string \<Rightarrow> int option" where
  "radixDigits radix acc [] = Some acc"
| "radixDigits radix acc (c # cs) =
     (case hexDigitValue c of
        None \<Rightarrow> None
      | Some d \<Rightarrow> if d < radix then radixDigits radix (int radix * acc + int d) cs else None)"

definition nonDecimalIntegerLiteral :: "string \<Rightarrow> int option" where
  "nonDecimalIntegerLiteral s =
     (case s of
        z # p # ds \<Rightarrow>
          if z \<noteq> CHR ''0'' \<or> ds = [] then None
          else if p = CHR ''x'' \<or> p = CHR ''X'' then radixDigits 16 0 ds
          else if p = CHR ''o'' \<or> p = CHR ''O'' then radixDigits 8 0 ds
          else if p = CHR ''b'' \<or> p = CHR ''B'' then radixDigits 2 0 ds
          else None
      | _ \<Rightarrow> None)"

definition signedInteger :: "string \<Rightarrow> int option" where
  "signedInteger s =
     (case s of
        [] \<Rightarrow> None
      | c # cs \<Rightarrow>
          if c = CHR ''-'' then map_option uminus (parseUnsigned cs)
          else if c = CHR ''+'' then parseUnsigned cs
          else parseUnsigned s)"

definition exponentPart :: "string \<Rightarrow> int option" where
  "exponentPart s =
     (case s of
        [] \<Rightarrow> Some 0
      | c # cs \<Rightarrow> if c = CHR ''e'' \<or> c = CHR ''E'' then signedInteger cs else None)"

definition strUnsignedDecimalLiteral :: "string \<Rightarrow> jsnum" where
  "strUnsignedDecimalLiteral s =
     (if s = ''Infinity'' then PosInf
      else (let ip = takeWhile isDigit s;
                r1 = dropWhile isDigit s;
                hasDot = (case r1 of [] \<Rightarrow> False | c # cs \<Rightarrow> c = CHR ''.'');
                fp = (if hasDot then takeWhile isDigit (tl r1) else []);
                r2 = (if hasDot then dropWhile isDigit (tl r1) else r1)
            in if ip = [] \<and> fp = [] then NaN
               else case exponentPart r2 of
                      None \<Rightarrow> NaN
                    | Some ex \<Rightarrow>
                        (case parseDigits 0 (ip @ fp) of
                           None \<Rightarrow> NaN
                         | Some d \<Rightarrow> roundDouble (of_int d * pow10 (ex - int (length fp))))))"

definition strDecimalLiteral :: "string \<Rightarrow> jsnum" where
  "strDecimalLiteral s =
     (case s of
        [] \<Rightarrow> NaN
      | c # cs \<Rightarrow>
          if c = CHR ''-'' then negate (strUnsignedDecimalLiteral cs)
          else if c = CHR ''+'' then strUnsignedDecimalLiteral cs
          else strUnsignedDecimalLiteral s)"

definition strNumericLiteral :: "string \<Rightarrow> jsnum" where
  "strNumericLiteral s =
     (case nonDecimalIntegerLiteral s of
        Some n \<Rightarrow> roundDouble (of_int n)
      | None \<Rightarrow> strDecimalLiteral s)"

definition NumberOfString :: "string \<Rightarrow> jsnum" where
  "NumberOfString s =
     (let t = trimRight (skipWhiteSpace s)
      in if t = [] then Fin 0 else strNumericLiteral t)"

fun Number :: "jsval \<Rightarrow> jsnum" where
  "Number Undefined = NaN"
| "Number Null = Fin 0"
| "Number (Str s) = NumberOfString s"

subsection \<open>String\<close>

text \<open>
  \<open>String(x)\<close> on a number (\<open>Number::toString\<close> in radix 10). For a finite positive \<open>x\<close>
  it takes the fewest digits \<open>s\<close> (\<open>k\<close> of them) and the exponent \<open>n\<close> with
  \<open>s * 10^(n - k)\<close> rounding to \<open>x\<close>, the nearest to \<open>x\<close> when two do, and prints them plain
  when \<open>k \<le> n \<le> 21\<close>, with a point when \<open>0 < n \<le> 21\<close> or \<open>-6 < n \<le> 0\<close>, and with an
  exponent otherwise. Seventeen digits always suffice: \<open>shortest\<close> tries
  \<open>k = 1, 2, ...\<close> and \<open>candidates\<close> gives the digits for one \<open>k\<close>, from the two
  multiples of \<open>10^(n - k)\<close> around \<open>x\<close>.
\<close>

definition ilog10 :: "rat \<Rightarrow> int" where
  "ilog10 a =
     (if 1 \<le> a then int (length (digitsOf \<lfloor>a\<rfloor>)) - 1
      else (let j = int (length (digitsOf \<lfloor>1 / a\<rfloor>)) - 1
            in if a * pow10 j = 1 then - j else - j - 1))"

definition candidates :: "rat \<Rightarrow> nat \<Rightarrow> (int \<times> int) option" where
  "candidates x k =
     (let n = ilog10 x + 1;
          scale = pow10 (n - int k);
          lo = \<lfloor>x / scale\<rfloor>;
          hi = lo + 1;
          okLo = (roundDouble (of_int lo * scale) = Fin x);
          okHi = (roundDouble (of_int hi * scale) = Fin x);
          dLo = x - of_int lo * scale;
          dHi = of_int hi * scale - x;
          hiN = (if hi = 10 ^ k then (10 ^ (k - 1), n + 1) else (hi, n))
      in if okLo \<and> okHi then
           (if dLo < dHi then Some (lo, n) else if dHi < dLo then Some hiN
            else if even lo then Some (lo, n) else Some hiN)
         else if okLo then Some (lo, n)
         else if okHi then Some hiN
         else None)"

fun shortest :: "rat \<Rightarrow> nat \<Rightarrow> nat \<Rightarrow> int \<times> int \<times> nat" where
  "shortest x k 0 = (\<lfloor>x / pow10 (ilog10 x + 1 - int k)\<rfloor>, ilog10 x + 1, k)"
| "shortest x k (Suc fuel) =
     (case candidates x k of
        Some (s, n) \<Rightarrow> (s, n, k)
      | None \<Rightarrow> shortest x (Suc k) fuel)"

definition formatDigits :: "int \<times> int \<times> nat \<Rightarrow> string" where
  "formatDigits snk =
     (case snk of (s, n, k) \<Rightarrow>
        let ds = digitsOf s in
        if int k \<le> n \<and> n \<le> 21 then ds @ replicate (nat (n - int k)) (CHR ''0'')
        else if 0 < n \<and> n \<le> 21 then take (nat n) ds @ ''.'' @ drop (nat n) ds
        else if - 6 < n \<and> n \<le> 0 then ''0.'' @ replicate (nat (- n)) (CHR ''0'') @ ds
        else (let ex = n - 1;
                  tail = ''e'' @ (if ex < 0 then ''-'' else ''+'') @ digitsOf \<bar>ex\<bar>
              in if k = 1 then ds @ tail else take 1 ds @ ''.'' @ drop 1 ds @ tail))"

definition stringOfPositive :: "rat \<Rightarrow> string" where
  "stringOfPositive q = formatDigits (shortest q 1 17)"

fun jsString :: "jsnum \<Rightarrow> string" where
  "jsString NaN = ''NaN''"
| "jsString PosInf = ''Infinity''"
| "jsString NegInf = ''-Infinity''"
| "jsString (Fin q) =
     (if q = 0 then ''0'' else if q < 0 then ''-'' @ stringOfPositive (- q) else stringOfPositive q)"

section \<open>Dates and paths\<close>

text \<open>
  \<open>Date.now()\<close> is a count of milliseconds since the epoch. \<open>civil_from_days\<close> turns a
  count of days since 1970-01-01 into the year, month and day of the proleptic Gregorian
  calendar, as the getters of a JavaScript \<open>Date\<close> do.
\<close>

definition civil_from_days :: "int \<Rightarrow> int \<times> int \<times> int" where
  "civil_from_days days =
     (let z = days + 719468;
          era = z div 146097;
          doe = z mod 146097;
          yoe = (doe - doe div 1460 + doe div 36524 - doe div 146096) div 365;
          y = yoe + era * 400;
          doy = doe - (365 * yoe + yoe div 4 - yoe div 100);
          mp = (5 * doy + 2) div 153;
          d = doy - (153 * mp + 2) div 5 + 1;
          m = (if mp < 10 then mp + 3 else mp - 9)
      in (if m \<le> 2 then y + 1 else y, m, d))"

text \<open>\<open>addLeadingZeros\<close> of date-fns: the digits of the absolute value, padded on the left.\<close>

definition addLeadingZeros :: "int \<Rightarrow> nat \<Rightarrow> string" where
  "addLeadingZeros n targetLength =
     (let output = digitsOf \<bar>n\<bar>
      in (if n < 0 then ''-'' else [])
         @ replicate (targetLength - length output) (CHR ''0'') @ output)"

text \<open>
  \<open>format("yyyy-MM/dd")\<close> of date-fns. The library renders a timestamp in the time zone
  of the process, so the zone's offset from UTC (local minus UTC, in minutes) is an input.
  The token \<open>yyyy\<close> prints a year \<open>y \<le> 0\<close> as \<open>1 - y\<close>.
\<close>

definition localDate :: "int \<Rightarrow> int \<Rightarrow> int \<times> int \<times> int" where
  "localDate utcOffsetMinutes ms = civil_from_days ((ms + utcOffsetMinutes * 60000) div 86400000)"

definition utcDate :: "int \<Rightarrow> int \<times> int \<times> int" where
  "utcDate ms = localDate 0 ms"

definition renderDate :: "int \<times> int \<times> int \<Rightarrow> string" where
  "renderDate ymd =
     (case ymd of (y, m, d) \<Rightarrow>
        addLeadingZeros (if y > 0 then y else 1 - y) 4 @ ''-'' @ addLeadingZeros m 2
        @ ''/'' @ addLeadingZeros d 2)"

definition format_yyyy_MM_dd :: "int \<Rightarrow> int \<Rightarrow> string" where
  "format_yyyy_MM_dd utcOffsetMinutes ms = renderDate (localDate utcOffsetMinutes ms)"

text \<open>
  \<open>path.extname\<close> of Node.js (POSIX): one pass from the end of the path to its start,
  with the variables of the library's loop.
\<close>

record extname_state =
  startDot :: int
  startPart :: int
  endIdx :: int
  matchedSlash :: bool
  preDotState :: int

fun extname_loop :: "string \<Rightarrow> nat \<Rightarrow> extname_state \<Rightarrow> extname_state" where
  "extname_loop path 0 st = st"
| "extname_loop path (Suc i) st =
     (let code = path ! i in
      if code = CHR ''/'' then
        (if \<not> matchedSlash st then st\<lparr>startPart := int i + 1\<rparr>
         else extname_loop path i st)
      else
        (let st1 = (if endIdx st = - 1 then st\<lparr>matchedSlash := False, endIdx := int i + 1\<rparr> else st);
             st2 = (if code = CHR ''.'' then
                      (if startDot st1 = - 1 then st1\<lparr>startDot := int i\<rparr>
                       else if preDotState st1 \<noteq> 1 then st1\<lparr>preDotState := 1\<rparr>
                       else st1)
                    else if startDot st1 \<noteq> - 1 then st1\<lparr>preDotState := - 1\<rparr>
                    else st1)
         in extname_loop path i st2))"

definition extname :: "string \<Rightarrow> string" where
  "extname path =
     (let st = extname_loop path (length path)
                 \<lparr>startDot = - 1, startPart = 0, endIdx = - 1, matchedSlash = True, preDotState = 0\<rparr>
      in if startDot st = - 1 \<or> endIdx st = - 1 \<or> preDotState st = 0
            \<or> (preDotState st = 1 \<and> startDot st = endIdx st - 1 \<and> startDot st = startPart st + 1)
         then []
         else take (nat (endIdx st - startDot st)) (drop (nat (startDot st)) path))"

section \<open>Configuration, errors and collaborators\<close>

text \<open>
  The constants of \<^verbatim>\<open>constants/Config\<close> and \<^verbatim>\<open>model/cloudStorage/Constants\<close> the
  service reads are parameters: \<open>CloudStorage.prefixPath\<close>, \<open>CloudStorage.concurrent\<close>,
  \<open>CloudStorage.totalSize\<close>, \<open>Whiteboard.convertRegion\<close> and the list
  \<open>whiteboardResourceType\<close>. The limit is a number; the count of slots is a natural
  number. A \<open>FileResourceType\<close> is the string Redis holds.
\<close>

record Config =
  prefixPath :: string
  concurrent :: nat
  totalSize :: jsnum
  convertRegion :: string
  whiteboardResourceType :: "string list"

datatype FileConvertStep = ConvertStepNone

datatype FilePayload = EmptyPayload | ConvertPayload string FileConvertStep

text \<open>
  What a call rejects with: the three error codes this file throws, and any other
  failure. A collaborator can fail with any of them.
\<close>

datatype error = UploadConcurrentLimit | NotEnoughTotalUsage | FileNotFound | OtherError string

text \<open>
  The surroundings of one call: the clock and time zone of the process, the identifier
  \<open>v4()\<close> draws, and the collaborators the service calls and this file does not define:
  \<open>CloudStorageDirectoryService.assertExists\<close>, the object store (\<open>assertExists\<close>,
  \<open>domain\<close>, \<open>policyTemplate\<close>) and \<open>CloudStorageFileService.getFileResourceTypeByFileName\<close>.
  An \<open>assertExists\<close> gives the error it throws, if any.
\<close>

record env =
  now :: int
  utcOffsetMinutes :: int
  v4 :: string
  dirAssertExists :: "string \<Rightarrow> error option"
  ossAssertExists :: "string \<Rightarrow> error option"
  ossHost :: string
  policyTemplate :: "string \<Rightarrow> string \<Rightarrow> jsnum \<Rightarrow> string \<times> string"
  getFileResourceTypeByFileName :: "string \<Rightarrow> string"

section \<open>The stores\<close>

text \<open>
  Modelled from the spec: \<open>RedisService\<close> (\<open>hmset\<close> with a time to live, \<open>hmget\<close>,
  \<open>scan\<close>, \<open>del\<close>) and \<open>RedisKey.cloudStorageFileInfo\<close> are not in the source at hand.
  The ephemeral store holds hashes of fields under keys namespaced by the user and the
  file, each with the instant (in milliseconds) at which it expires; an expired key
  reads as absent. The scan for \<open>(user, "*")\<close> gives the live keys of the user, capped
  at the count it is called with.
\<close>

type_synonym redis_key = "string \<times> string"

type_synonym redis_hash = "(string \<times> string) list"

type_synonym redis = "(redis_key \<times> redis_hash \<times> int) list"

definition live :: "int \<Rightarrow> redis \<Rightarrow> redis" where
  "live t r = filter (\<lambda>(k, h, ex). t < ex) r"

definition userKeys :: "redis \<Rightarrow> int \<Rightarrow> string \<Rightarrow> redis_key list" where
  "userKeys r t user = map fst (filter (\<lambda>(k, h, ex). fst k = user) (live t r))"

definition redis_scan :: "redis \<Rightarrow> int \<Rightarrow> string \<Rightarrow> nat \<Rightarrow> redis_key list" where
  "redis_scan r t user count = take count (userKeys r t user)"

definition field_of :: "redis_hash \<Rightarrow> string \<Rightarrow> jsval" where
  "field_of h f = (case map_of h f of None \<Rightarrow> Null | Some v \<Rightarrow> Str v)"

definition redis_hash_of :: "redis \<Rightarrow> int \<Rightarrow> redis_key \<Rightarrow> redis_hash" where
  "redis_hash_of r t key = (case map_of (live t r) key of None \<Rightarrow> [] | Some (h, ex) \<Rightarrow> h)"

definition redis_hmget :: "redis \<Rightarrow> int \<Rightarrow> redis_key \<Rightarrow> string list \<Rightarrow> jsval list" where
  "redis_hmget r t key names = map (field_of (redis_hash_of r t key)) names"

definition redis_hmget1 :: "redis \<Rightarrow> int \<Rightarrow> redis_key \<Rightarrow> string \<Rightarrow> jsval" where
  "redis_hmget1 r t key field = field_of (redis_hash_of r t key) field"

definition redis_hmset :: "redis \<Rightarrow> int \<Rightarrow> redis_key \<Rightarrow> redis_hash \<Rightarrow> int \<Rightarrow> redis" where
  "redis_hmset r t key kvs seconds =
     filter (\<lambda>(k, h, ex). k \<noteq> key) r @ [(key, kvs @ redis_hash_of r t key, t + seconds * 1000)]"

definition redis_del :: "redis \<Rightarrow> redis_key \<Rightarrow> redis" where
  "redis_del r key = filter (\<lambda>(k, h, ex). k \<noteq> key) r"

text \<open>
  Modelled from the spec: the DAOs (\<open>cloudStorageFilesDAO\<close>, \<open>cloudStorageUserFilesDAO\<close>,
  \<open>cloudStorageConfigsDAO\<close>) are not in the source at hand. An insert adds a row, the
  insert with \<open>orUpdate\<close> replaces the row of the user or adds it, and \<open>findOne\<close> gives
  the column of the user's row, \<open>undefined\<close> when there is none.
\<close>

record cloud_storage_files =
  file_name :: string
  file_size :: jsnum
  file_url :: string
  file_uuid :: string
  directory_path :: string
  resource_type :: string
  payload :: FilePayload

record store =
  redis :: redis
  cloudStorageFiles :: "cloud_storage_files list"
  cloudStorageUserFiles :: "(string \<times> string) list"
  cloudStorageConfigs :: "(string \<times> string) list"

fun upsert :: "'k \<Rightarrow> 'v \<Rightarrow> ('k \<times> 'v) list \<Rightarrow> ('k \<times> 'v) list" where
  "upsert k v [] = [(k, v)]"
| "upsert k v ((k', v') # rest) =
     (if k' = k then (k, v) # rest else (k', v') # upsert k v rest)"

definition findOne_total_usage :: "(string \<times> string) list \<Rightarrow> string \<Rightarrow> jsval" where
  "findOne_total_usage configs user =
     (case map_of configs user of None \<Rightarrow> Undefined | Some v \<Rightarrow> Str v)"

section \<open>The upload service\<close>

record CloudStorageUploadStartConfig =
  fileName :: string
  fileSize :: jsnum
  targetDirectoryPath :: string

record GetFileInfoByRedisReturn = CloudStorageUploadStartConfig +
  fileResourceType :: string

record CloudStorageUploadStartReturn =
  fileUUID :: string
  ossFilePath :: string
  ossDomain :: string
  policy :: string
  signature :: string

text \<open>
  A method of \<open>CloudStorageUploadService\<close> takes the configuration, the surroundings of
  the call, \<open>this.userUUID\<close>, its arguments and the stores, and gives what it returns or
  throws together with the stores it leaves. The calls of one method read the clock once.
  The two writes that \<open>finish\<close> starts together with \<open>Promise.all\<close> are applied one after
  the other; they touch different tables. \<open>ossHost\<close> stands for \<open>this.oss.domain\<close>.
\<close>

definition generateOSSFilePath :: "Config \<Rightarrow> env \<Rightarrow> string \<Rightarrow> string \<Rightarrow> string" where
  "generateOSSFilePath cfg e fname fuuid =
     (let datePath = format_yyyy_MM_dd (utcOffsetMinutes e) (now e)
      in prefixPath cfg @ ''/'' @ datePath @ ''/'' @ fuuid @ ''/'' @ fuuid @ extname fname)"

definition generateFilePayload :: "Config \<Rightarrow> string \<Rightarrow> FilePayload" where
  "generateFilePayload cfg rtype =
     (if rtype \<in> set (whiteboardResourceType cfg)
      then ConvertPayload (convertRegion cfg) ConvertStepNone
      else EmptyPayload)"

definition assertConcurrentLimit ::
  "Config \<Rightarrow> env \<Rightarrow> string \<Rightarrow> store \<Rightarrow> (error + unit) \<times> store" where
  "assertConcurrentLimit cfg e user s =
     (let uploadingFiles = redis_scan (redis s) (now e) user (concurrent cfg + 1)
      in if length uploadingFiles \<ge> concurrent cfg then (Inl UploadConcurrentLimit, s)
         else (Inr (), s))"

definition getTotalUsageByUpdated ::
  "Config \<Rightarrow> string \<Rightarrow> jsnum \<Rightarrow> store \<Rightarrow> (error + jsnum) \<times> store" where
  "getTotalUsageByUpdated cfg user currentFileSize s =
     (let total_usage = findOne_total_usage (cloudStorageConfigs s) user;
          totalUsage = jsAdd (orZero (Number total_usage)) currentFileSize
      in if jsGreater totalUsage (totalSize cfg) then (Inl NotEnoughTotalUsage, s)
         else (Inr totalUsage, s))"

definition assertConcurrentFileSize ::
  "Config \<Rightarrow> env \<Rightarrow> string \<Rightarrow> jsnum \<Rightarrow> store \<Rightarrow> (error + unit) \<times> store" where
  "assertConcurrentFileSize cfg e user totalUsage s =
     (let uploadingFiles = redis_scan (redis s) (now e) user (concurrent cfg + 1);
          uploadingFileTotalSize =
            foldl (\<lambda>accFileSize current.
                     jsAdd accFileSize
                       (orZero (Number (redis_hmget1 (redis s) (now e) current ''fileSize''))))
              totalUsage uploadingFiles
      in if jsGreater uploadingFileTotalSize (totalSize cfg) then (Inl NotEnoughTotalUsage, s)
         else (Inr (), s))"

fun strValue :: "jsval \<Rightarrow> string" where
  "strValue (Str v) = v"
| "strValue _ = []"

definition getFileInfoByRedis ::
  "env \<Rightarrow> string \<Rightarrow> string \<Rightarrow> store \<Rightarrow> (error + GetFileInfoByRedisReturn) \<times> store" where
  "getFileInfoByRedis e user fuuid s =
     (let fileInfo = redis_hmget (redis s) (now e) (user, fuuid)
                       [''fileName'', ''fileSize'', ''targetDirectoryPath'', ''fileResourceType''];
          fname = fileInfo ! 0;
          fsize = Number (orUndefined (fileInfo ! 1));
          dir = fileInfo ! 2;
          rtype = fileInfo ! 3
      in if falsy fname \<or> isNaN fsize \<or> falsy dir \<or> falsy rtype then (Inl FileNotFound, s)
         else (Inr \<lparr>fileName = strValue fname, fileSize = fsize,
                     targetDirectoryPath = strValue dir, fileResourceType = strValue rtype\<rparr>, s))"

text \<open>\<open>insertFile\<close> takes the fields of its \<open>InsertFileInfo\<close> argument one by one.\<close>

definition insertFile ::
  "Config \<Rightarrow> string \<Rightarrow> string \<Rightarrow> jsnum \<Rightarrow> string \<Rightarrow> string \<Rightarrow> string \<Rightarrow> string \<Rightarrow> store \<Rightarrow> store" where
  "insertFile cfg user fname fsize furl fuuid dir rtype s =
     s\<lparr>cloudStorageFiles := cloudStorageFiles s @
          [\<lparr>file_name = fname, file_size = fsize, file_url = furl, file_uuid = fuuid,
            directory_path = dir, resource_type = rtype,
            payload = generateFilePayload cfg rtype\<rparr>],
       cloudStorageUserFiles := cloudStorageUserFiles s @ [(user, fuuid)]\<rparr>"

definition updateTotalUsage :: "string \<Rightarrow> jsnum \<Rightarrow> store \<Rightarrow> store" where
  "updateTotalUsage user totalUsage s =
     s\<lparr>cloudStorageConfigs := upsert user (jsString totalUsage) (cloudStorageConfigs s)\<rparr>"

definition start ::
  "Config \<Rightarrow> env \<Rightarrow> string \<Rightarrow> CloudStorageUploadStartConfig \<Rightarrow> store
     \<Rightarrow> (error + CloudStorageUploadStartReturn) \<times> store" where
  "start cfg e user config s =
     (case assertConcurrentLimit cfg e user s of
        (Inl err, s1) \<Rightarrow> (Inl err, s1)
      | (Inr _, s1) \<Rightarrow>
     (case getTotalUsageByUpdated cfg user (fileSize config) s1 of
        (Inl err, s2) \<Rightarrow> (Inl err, s2)
      | (Inr totalUsage, s2) \<Rightarrow>
     (case assertConcurrentFileSize cfg e user totalUsage s2 of
        (Inl err, s3) \<Rightarrow> (Inl err, s3)
      | (Inr _, s3) \<Rightarrow>
     (case dirAssertExists e (targetDirectoryPath config) of
        Some err \<Rightarrow> (Inl err, s3)
      | None \<Rightarrow>
          (let rtype = getFileResourceTypeByFileName e (fileName config);
               fuuid = v4 e;
               s4 = s3\<lparr>redis := redis_hmset (redis s3) (now e) (user, fuuid)
                      [(''fileName'', fileName config),
                       (''fileSize'', jsString (fileSize config)),
                       (''targetDirectoryPath'', targetDirectoryPath config),
                       (''fileResourceType'', rtype)]
                      (60 * 20)\<rparr>;
               path = generateOSSFilePath cfg e (fileName config) fuuid;
               ps = policyTemplate e (fileName config) path (fileSize config)
           in (Inr \<lparr>fileUUID = fuuid, ossFilePath = path, ossDomain = ossHost e,
                     policy = fst ps, signature = snd ps\<rparr>, s4))))))"

definition finish ::
  "Config \<Rightarrow> env \<Rightarrow> string \<Rightarrow> string \<Rightarrow> store \<Rightarrow> (error + unit) \<times> store" where
  "finish cfg e user fuuid s =
     (case getFileInfoByRedis e user fuuid s of
        (Inl err, s1) \<Rightarrow> (Inl err, s1)
      | (Inr info, s1) \<Rightarrow>
     (case dirAssertExists e (targetDirectoryPath info) of
        Some err \<Rightarrow> (Inl err, s1)
      | None \<Rightarrow>
     (let path = generateOSSFilePath cfg e (fileName info) fuuid in
      case ossAssertExists e path of
        Some err \<Rightarrow> (Inl err, s1)
      | None \<Rightarrow>
     (case getTotalUsageByUpdated cfg user (fileSize info) s1 of
        (Inl err, s2) \<Rightarrow> (Inl err, s2)
      | (Inr totalUsage, s2) \<Rightarrow>
          (let s3 = insertFile cfg user (fileName info) (fileSize info)
                      (ossHost e @ ''/'' @ path) fuuid (targetDirectoryPath info)
                      (fileResourceType info) s2;
               s4 = updateTotalUsage user totalUsage s3;
               s5 = s4\<lparr>redis := redis_del (redis s4) (user, fuuid)\<rparr>
           in (Inr (), s5))))))"

section \<open>Quantities the checks compare\<close>

text \<open>
  \<open>currentUsage\<close> is the usage \<open>getTotalUsageByUpdated\<close> reads for a user,
  \<open>(Number(total_usage) || 0)\<close>; \<open>sessionSize\<close> is what \<open>assertConcurrentFileSize\<close> adds
  for one key of the scan, \<open>(Number(currentFileSize) || 0)\<close>; \<open>inFlightTotal\<close> is the
  sum its \<open>reduce\<close> builds over the keys, one double-precision addition after the other.
\<close>

definition currentUsage :: "store \<Rightarrow> string \<Rightarrow> jsnum" where
  "currentUsage s user = orZero (Number (findOne_total_usage (cloudStorageConfigs s) user))"

definition sessionSize :: "redis \<Rightarrow> int \<Rightarrow> redis_key \<Rightarrow> jsnum" where
  "sessionSize r t key = orZero (Number (redis_hmget1 r t key ''fileSize''))"


text \<open>
  \<open>capacityExceeded\<close> is the condition under which the one statement of \<open>start\<close> that
  calls \<open>getTotalUsageByUpdated\<close> and \<open>assertConcurrentFileSize\<close> throws: the usage with the
  new file is above the limit, or it is once the sizes of the scanned sessions are added.
  Sums and comparisons are those of JavaScript numbers.
\<close>

definition inFlightTotal :: "redis \<Rightarrow> int \<Rightarrow> jsnum \<Rightarrow> redis_key list \<Rightarrow> jsnum" where
  "inFlightTotal r t baseTotal keys =
     foldl (\<lambda>acc key. jsAdd acc (sessionSize r t key)) baseTotal keys"

definition capacityExceeded :: "Config \<Rightarrow> env \<Rightarrow> string \<Rightarrow> jsnum \<Rightarrow> store \<Rightarrow> bool" where
  "capacityExceeded cfg e user n s =
     (jsGreater (jsAdd (currentUsage s user) n) (totalSize cfg)
      \<or> jsGreater
           (inFlightTotal (redis s) (now e) (jsAdd (currentUsage s user) n)
              (redis_scan (redis s) (now e) user (concurrent cfg + 1)))
           (totalSize cfg))"

text \<open>
  \<open>sessionUnusable\<close> is the condition of \<open>getFileInfoByRedis\<close> on the hash of the key: a
  field that is missing or the empty string is falsy, and the size is \<open>NaN\<close> when it is
  missing, empty or a string that \<open>Number\<close> does not read as a number.
\<close>

definition missingOrEmpty :: "string option \<Rightarrow> bool" where
  "missingOrEmpty v = (v = None \<or> v = Some [])"

definition sessionUnusable :: "redis \<Rightarrow> int \<Rightarrow> redis_key \<Rightarrow> bool" where
  "sessionUnusable r t key =
     (let h = redis_hash_of r t key
      in missingOrEmpty (map_of h ''fileName'')
         \<or> (case map_of h ''fileSize'' of None \<Rightarrow> True
             | Some v \<Rightarrow> v = [] \<or> isNaN (NumberOfString v))
         \<or> missingOrEmpty (map_of h ''targetDirectoryPath'')
         \<or> missingOrEmpty (map_of h ''fileResourceType''))"

section \<open>The wording of the specification\<close>

text \<open>
  The object path as the specification words it, to compare with \<open>generateOSSFilePath\<close>:
  prefix, year and month, day, the identifier twice and the extension, the date being
  the UTC date of the instant of the call.
\<close>

definition spec_objectPath :: "Config \<Rightarrow> int \<Rightarrow> string \<Rightarrow> string \<Rightarrow> string" where
  "spec_objectPath cfg ms fname fuuid =
     prefixPath cfg @ ''/'' @ renderDate (utcDate ms) @ ''/'' @ fuuid @ ''/'' @ fuuid @ extname fname"

text \<open>
  The sessions \<open>finish\<close> rejects as the specification words it: one of the four fields
  is missing, or the size is not a valid number.
\<close>

definition spec_sessionUnusable :: "redis \<Rightarrow> int \<Rightarrow> redis_key \<Rightarrow> bool" where
  "spec_sessionUnusable r t key =
     (let h = redis_hash_of r t key
      in map_of h ''fileName'' = None \<or> map_of h ''fileSize'' = None
         \<or> map_of h ''targetDirectoryPath'' = None \<or> map_of h ''fileResourceType'' = None
         \<or> (case map_of h ''fileSize'' of None \<Rightarrow> True
             | Some v \<Rightarrow> v = [] \<or> isNaN (NumberOfString v)))"


section \<open>Example inputs\<close>

text \<open>
  A configuration with three upload slots and a limit of 10000 bytes; a call at
  2021-10-19 23:59:00 UTC in a process whose zone is UTC, where the directory
  \<open>/docs/\<close> exists and the object store holds the objects of the files \<open>f1\<close> and \<open>f2\<close>; the
  request of the scenario of the specification; sessions of the user \<open>u\<close> that are live at
  that instant, for a picture and for a slide deck; and stores built from sessions and
  usage rows.
\<close>

definition exCfg :: Config where
  "exCfg = \<lparr>prefixPath = ''PREFIX'', concurrent = 3, totalSize = Fin 10000, convertRegion = ''cn-hz'',
            whiteboardResourceType = [''WhiteboardConvert'', ''WhiteboardProjector'']\<rparr>"

definition exEnv :: env where
  "exEnv = \<lparr>now = 1634687940000, utcOffsetMinutes = 0, v4 = ''f1'',
            dirAssertExists = (\<lambda>p. if p = ''/docs/'' then None else Some (OtherError ''DirectoryNotExists'')),
            ossAssertExists =
              (\<lambda>p. if p \<in> set [''PREFIX/2021-10/19/f1/f1.png'', ''PREFIX/2021-10/19/f2/f2.pptx'']
                   then None else Some (OtherError ''ObjectNotFound'')),
            ossHost = ''https://oss.example'',
            policyTemplate = (\<lambda>fname path fsize. (''policy'', ''signature'')),
            getFileResourceTypeByFileName =
              (\<lambda>fname. if extname fname = ''.pptx'' then ''WhiteboardProjector'' else ''NormalResources'')\<rparr>"

definition exConfig :: CloudStorageUploadStartConfig where
  "exConfig = \<lparr>fileName = ''a.png'', fileSize = Fin 1000, targetDirectoryPath = ''/docs/''\<rparr>"

definition exSession :: "string \<Rightarrow> string \<Rightarrow> redis_key \<times> redis_hash \<times> int" where
  "exSession fuuid fsize =
     ((''u'', fuuid),
      [(''fileName'', ''a.png''), (''fileSize'', fsize), (''targetDirectoryPath'', ''/docs/''),
       (''fileResourceType'', ''NormalResources'')],
      1634689000000)"

definition exSlides :: "string \<Rightarrow> string \<Rightarrow> redis_key \<times> redis_hash \<times> int" where
  "exSlides fuuid fsize =
     ((''u'', fuuid),
      [(''fileName'', ''deck.pptx''), (''fileSize'', fsize), (''targetDirectoryPath'', ''/docs/''),
       (''fileResourceType'', ''WhiteboardProjector'')],
      1634689000000)"

definition exStore :: "(redis_key \<times> redis_hash \<times> int) list \<Rightarrow> (string \<times> string) list \<Rightarrow> store" where
  "exStore sessions usage =
     \<lparr>redis = sessions, cloudStorageFiles = [], cloudStorageUserFiles = [],
      cloudStorageConfigs = usage\<rparr>"

text \<open>
  Variants of the call: the directory is gone, the object is not in the object store, or
  both; and a store whose sessions have a numeric size, a size that is not a number and
  no size at all.
\<close>

definition exEnvNoDir :: env where
  "exEnvNoDir = exEnv\<lparr>dirAssertExists := (\<lambda>p. Some (OtherError ''DirectoryNotExists''))\<rparr>"

definition exEnvNoObject :: env where
  "exEnvNoObject = exEnv\<lparr>ossAssertExists := (\<lambda>p. Some (OtherError ''ObjectNotFound''))\<rparr>"

definition exEnvNothing :: env where
  "exEnvNothing = exEnvNoDir\<lparr>ossAssertExists := (\<lambda>p. Some (OtherError ''ObjectNotFound''))\<rparr>"

definition exMixed :: store where
  "exMixed = exStore [exSession ''f1'' ''2400'', exSession ''f2'' ''abc'',
                      ((''u'', ''f3''), [(''fileName'', ''a.png'')], 1634689000000)] []"

text \<open>
  Later instants and another zone: two minutes later, past midnight; the instant at which
  the example sessions expire; 2021-10-19 20:00:00 UTC in a process eight hours east of
  UTC; the instant, 1200 seconds after the call, at which a session written by that
  call expires. An object store that fails with \<open>FileNotFound\<close>. Configurations with a
  limit of \<open>2^80\<close> and of \<open>2^53\<close> bytes. A session whose file name is the empty string.
\<close>

definition exEnvLater :: env where
  "exEnvLater = exEnv\<lparr>now := 1634688060000\<rparr>"

definition exEnvExpired :: env where
  "exEnvExpired = exEnv\<lparr>now := 1634689000000\<rparr>"

definition exEnvEast :: env where
  "exEnvEast = exEnv\<lparr>now := 1634673600000, utcOffsetMinutes := 480\<rparr>"

definition exEnvOssNotFound :: env where
  "exEnvOssNotFound = exEnv\<lparr>ossAssertExists := (\<lambda>p. Some FileNotFound)\<rparr>"


definition exCfgWide :: Config where
  "exCfgWide = exCfg\<lparr>totalSize := Fin (2 ^ 80)\<rparr>"

definition exCfgTight :: Config where
  "exCfgTight = exCfg\<lparr>totalSize := Fin 9007199254740992\<rparr>"

definition exNameless :: store where
  "exNameless =
     exStore [((''u'', ''f1''),
               [(''fileName'', ''''), (''fileSize'', ''1000''), (''targetDirectoryPath'', ''/docs/''),
                (''fileResourceType'', ''NormalResources'')],
               1634689000000)] []"

section \<open>Integers up to 2^53 are exact doubles\<close>

text \<open>
  Rounding leaves an integer of magnitude up to \<open>2^53\<close> as it is. The equation that
  follows lets evaluation take that case at once.
\<close>

lemma bitlen_bounds:
  "0 < n \<Longrightarrow> 2 ^ (bitlen n - 1) \<le> n \<and> n < 2 ^ bitlen n \<and> 0 < bitlen n"
proof (induction n rule: bitlen.induct)
  case (1 n)
  show ?case
  proof (cases "n = 1")
    case True
    then show ?thesis by (simp add: bitlen.simps [of 1] bitlen.simps [of 0])
  next
    case False
    with "1.prems" have half: "0 < n div 2" by simp
    with "1.IH" "1.prems" have ih: "2 ^ (bitlen (n div 2) - 1) \<le> n div 2"
      "n div 2 < 2 ^ bitlen (n div 2)" "0 < bitlen (n div 2)"
      by simp_all
    from "1.prems" have len: "bitlen n = Suc (bitlen (n div 2))"
      by (simp add: bitlen.simps [of n])
    from ih(3) have pw: "(2::int) ^ bitlen (n div 2) = 2 * 2 ^ (bitlen (n div 2) - 1)"
      by (cases "bitlen (n div 2)") simp_all
    from ih(1) pw have "2 ^ bitlen (n div 2) \<le> n" by linarith
    moreover from ih(2) have "n < 2 * 2 ^ bitlen (n div 2)" by linarith
    ultimately show ?thesis by (simp add: len)
  qed
qed

lemma roundHalfEven_of_int: "roundHalfEven (of_int k) = k"
  by (simp add: roundHalfEven_def)

lemma pow2_low: "b \<le> 52 \<Longrightarrow> pow2 (int b - 52) = 1 / 2 ^ (52 - b)"
  by (auto simp: pow2_def nat_diff_distrib' dest: antisym)

lemma roundDouble_of_int:
  assumes "\<bar>n\<bar> \<le> 2 ^ 53"
  shows "roundDouble (of_int n) = Fin (of_int n)"
proof (cases "n = 0")
  case True
  then show ?thesis by (simp add: roundDouble_def)
next
  case False
  define k where "k = \<bar>n\<bar>"
  define b where "b = bitlen k - 1"
  from False have kpos: "0 < k" by (simp add: k_def)
  from bitlen_bounds [OF kpos] have bnd: "2 ^ b \<le> k" "k < 2 ^ bitlen k" "0 < bitlen k"
    by (simp_all add: b_def)
  from bnd(1) assms have "(2::int) ^ b \<le> 2 ^ 53" by (simp add: k_def)
  have b53: "b \<le> 53"
  proof (rule ccontr)
    assume "\<not> b \<le> 53"
    then have "54 \<le> b" by simp
    then have "(2::int) ^ 54 \<le> 2 ^ b" by (rule power_increasing) simp
    with \<open>(2::int) ^ b \<le> 2 ^ 53\<close> show False by simp
  qed
  have a: "\<bar>(of_int n :: rat)\<bar> = of_int k" by (simp add: k_def)
  from kpos have one: "(1::rat) \<le> of_int k" by simp
  have lg: "ilog2 (of_int k) = int b"
    using one bnd(3) by (simp add: ilog2_def b_def)
  have mx: "max (int b) (- 1022) = int b" by simp
  have bounds: "\<not> 1024 \<le> int b" "int b \<noteq> 1023" using b53 by simp_all
  have val: "of_int (roundHalfEven (of_int k / pow2 (int b - 52))) * pow2 (int b - 52)
      = (of_int k :: rat)"
  proof (cases "b \<le> 52")
    case True
    have eq: "(of_int k :: rat) / pow2 (int b - 52) = of_int (k * 2 ^ (52 - b))"
      by (simp add: pow2_low [OF True])
    have "of_int (roundHalfEven (of_int k / pow2 (int b - 52))) * pow2 (int b - 52)
        = (of_int (k * 2 ^ (52 - b)) :: rat) * pow2 (int b - 52)"
      by (simp only: eq roundHalfEven_of_int)
    also have "\<dots> = of_int k"
      by (simp add: pow2_low [OF True])
    finally show ?thesis .
  next
    case False
    with b53 have b: "b = 53" by simp
    with bnd(1) assms have k: "k = 2 ^ 53" by (simp add: k_def)
    have eq: "(of_int k :: rat) / pow2 (int b - 52) = of_int (2 ^ 52)"
      by (simp add: k b pow2_def)
    have "of_int (roundHalfEven (of_int k / pow2 (int b - 52))) * pow2 (int b - 52)
        = (of_int (2 ^ 52) :: rat) * pow2 (int b - 52)"
      by (simp only: eq roundHalfEven_of_int)
    also have "\<dots> = of_int k"
      by (simp add: k b pow2_def)
    finally show ?thesis .
  qed
  have sgn: "(if 0 < (of_int n :: rat) then of_int k else - of_int k) = (of_int n :: rat)"
    using False by (simp add: k_def)
  from False have nz: "(of_int n :: rat) \<noteq> 0" by simp
  show ?thesis
    unfolding roundDouble_def Let_def a lg mx val
    using nz bounds sgn by simp
qed

lemma roundDouble_code [code]:
  "roundDouble q =
     (if of_int \<lfloor>q\<rfloor> = q \<and> \<bar>q\<bar> \<le> 2 ^ 53 then Fin q
      else (let a = \<bar>q\<bar>;
                e = max (ilog2 a) (- 1022);
                ulp = pow2 (e - 52);
                m = roundHalfEven (a / ulp)
            in if 1024 \<le> e \<or> (e = 1023 \<and> m = 2 ^ 53) then (if 0 < q then PosInf else NegInf)
               else Fin (if 0 < q then of_int m * ulp else - (of_int m * ulp))))"
proof (cases "of_int \<lfloor>q\<rfloor> = q \<and> \<bar>q\<bar> \<le> 2 ^ 53")
  case True
  then have q: "of_int \<lfloor>q\<rfloor> = q" and le: "\<bar>q\<bar> \<le> 2 ^ 53"
    by (rule conjunct1, rule conjunct2)
  from le have "\<bar>(of_int \<lfloor>q\<rfloor> :: rat)\<bar> \<le> of_int (2 ^ 53)"
    by (simp only: q of_int_power of_int_numeral)
  then have "\<bar>\<lfloor>q\<rfloor>\<bar> \<le> 2 ^ 53"
    by (simp only: of_int_abs [symmetric] of_int_le_iff)
  from roundDouble_of_int [OF this] have "roundDouble q = Fin q"
    by (simp only: q)
  with q le show ?thesis by simp
next
  case False
  let ?general = "(let a = \<bar>q\<bar>;
                e = max (ilog2 a) (- 1022);
                ulp = pow2 (e - 52);
                m = roundHalfEven (a / ulp)
            in if 1024 \<le> e \<or> (e = 1023 \<and> m = 2 ^ 53) then (if 0 < q then PosInf else NegInf)
               else Fin (if 0 < q then of_int m * ulp else - (of_int m * ulp)))"
  have nz: "q \<noteq> 0"
  proof
    assume "q = 0"
    then have "of_int \<lfloor>q\<rfloor> = q \<and> \<bar>q\<bar> \<le> 2 ^ 53" by simp
    with False show False ..
  qed
  have l: "roundDouble q = ?general"
    unfolding roundDouble_def by (rule if_not_P) (fact nz)
  have r: "(if of_int \<lfloor>q\<rfloor> = q \<and> \<bar>q\<bar> \<le> 2 ^ 53 then Fin q else ?general) = ?general"
    by (rule if_not_P) (fact False)
  show ?thesis by (simp only: l r)
qed


section \<open>Round trip of an integer through its string\<close>

lemma index_of_nth: "distinct xs \<Longrightarrow> i < length xs \<Longrightarrow> index_of (xs ! i) xs = Some i"
proof (induction xs arbitrary: i)
  case Nil
  then show ?case by simp
next
  case (Cons y ys)
  show ?case
  proof (cases i)
    case 0
    then show ?thesis by simp
  next
    case (Suc j)
    with Cons.prems have "ys ! j \<in> set ys" "ys ! j \<noteq> y" by auto
    with Cons Suc show ?thesis by simp
  qed
qed

lemma digit_val_digit_char: "d < 10 \<Longrightarrow> digit_val (digit_char d) = Some d"
  unfolding digit_val_def digit_char_def
  by (rule index_of_nth) (simp_all add: decimalDigits_def)

lemma isDigit_digit_char: "d < 10 \<Longrightarrow> isDigit (digit_char d)"
proof -
  assume "d < 10"
  then have "d < length decimalDigits" by (simp add: decimalDigits_def)
  then show ?thesis unfolding isDigit_def digit_char_def by (rule nth_mem)
qed

lemma parseDigits_append:
  "parseDigits acc (xs @ ys) =
     (case parseDigits acc xs of None \<Rightarrow> None | Some a \<Rightarrow> parseDigits a ys)"
  by (induction xs arbitrary: acc) (auto split: option.splits)

lemma parseDigits_digitsOf: "0 \<le> n \<Longrightarrow> parseDigits 0 (digitsOf n) = Some n"
proof (induction n rule: digitsOf.induct)
  case (1 n)
  show ?case
  proof (cases "n < 10")
    case True
    then have d: "digitsOf n = [digit_char (nat n)]"
      by (simp add: digitsOf.simps [of n])
    from True have "nat n < 10" by simp
    then have dv: "digit_val (digit_char (nat n)) = Some (nat n)"
      by (rule digit_val_digit_char)
    from "1.prems" show ?thesis by (simp add: d dv)
  next
    case False
    then have d: "digitsOf n = digitsOf (n div 10) @ [digit_char (nat (n mod 10))]"
      by (simp add: digitsOf.simps [of n])
    from 1 False have ih: "parseDigits 0 (digitsOf (n div 10)) = Some (n div 10)" by simp
    have "nat (n mod 10) < 10" by simp
    then have dv: "digit_val (digit_char (nat (n mod 10))) = Some (nat (n mod 10))"
      by (rule digit_val_digit_char)
    show ?thesis by (simp add: d parseDigits_append ih dv)
  qed
qed

lemma digitsOf_nonempty: "digitsOf n \<noteq> []"
  by (simp add: digitsOf.simps [of n])

lemma digitsOf_digits: "list_all isDigit (digitsOf n)"
proof (induction n rule: digitsOf.induct)
  case (1 n)
  show ?case
  proof (cases "n < 10")
    case True
    then have "nat n < 10" by simp
    with True show ?thesis by (simp add: digitsOf.simps [of n] isDigit_digit_char)
  next
    case False
    have "nat (n mod 10) < 10" by simp
    with 1 False show ?thesis by (simp add: digitsOf.simps [of n] isDigit_digit_char)
  qed
qed

lemma isDigit_cases:
  "isDigit c \<Longrightarrow> c \<in> set ''0123456789''"
  by (simp add: isDigit_def decimalDigits_def)

lemma skipWhiteSpace_other:
  "c \<notin> set [CHR 0x09, CHR 0x0A, CHR 0x0B, CHR 0x0C, CHR 0x0D, CHR 0x20,
              CHR 0xC2, CHR 0xE1, CHR 0xE2, CHR 0xE3, CHR 0xEF] \<Longrightarrow>
   skipWhiteSpace (c # cs) = c # cs"
  by (simp add: skipWhiteSpace.simps)

lemma skipWhiteSpace_plain:
  assumes "isDigit c \<or> c = CHR ''-''"
  shows "skipWhiteSpace (c # cs) = c # cs"
proof (rule skipWhiteSpace_other)
  from assms isDigit_cases [of c]
  have "c \<in> set ''0123456789-''"
    by auto
  then show "c \<notin> set [CHR 0x09, CHR 0x0A, CHR 0x0B, CHR 0x0C, CHR 0x0D, CHR 0x20,
              CHR 0xC2, CHR 0xE1, CHR 0xE2, CHR 0xE3, CHR 0xEF]"
    by auto
qed

lemma trimRight_plain:
  "list_all (\<lambda>c. isDigit c \<or> c = CHR ''-'') s \<Longrightarrow> trimRight s = s"
  by (induction s) (simp_all add: skipWhiteSpace_plain trimRight.simps)

lemma nonDecimal_plain:
  "list_all isDigit (tl s) \<Longrightarrow> nonDecimalIntegerLiteral s = None"
proof (cases s)
  case Nil
  then show ?thesis by (simp add: nonDecimalIntegerLiteral_def)
next
  case (Cons z r)
  assume a: "list_all isDigit (tl s)"
  show ?thesis
  proof (cases r)
    case Nil
    with Cons show ?thesis by (simp add: nonDecimalIntegerLiteral_def)
  next
    case (Cons p ds)
    with a \<open>s = z # r\<close> have "isDigit p" by simp
    from isDigit_cases [OF this] Cons \<open>s = z # r\<close> show ?thesis
      by (auto simp: nonDecimalIntegerLiteral_def)
  qed
qed

lemma unsigned_digits:
  assumes "0 \<le> n"
  shows "strUnsignedDecimalLiteral (digitsOf n) = roundDouble (of_int n)"
proof -
  let ?ds = "digitsOf n"
  have all: "list_all isDigit ?ds" by (rule digitsOf_digits)
  then have tw: "takeWhile isDigit ?ds = ?ds" and dw: "dropWhile isDigit ?ds = []"
    by (simp_all add: list_all_iff)
  have "\<not> isDigit (CHR ''I'')" by (simp add: isDigit_def decimalDigits_def)
  with all have inf: "?ds \<noteq> ''Infinity''" by auto
  show ?thesis
    by (simp add: strUnsignedDecimalLiteral_def Let_def inf tw dw digitsOf_nonempty
        exponentPart_def parseDigits_digitsOf [OF assms] pow10_def)
qed

lemma Number_digits:
  assumes "0 \<le> n" "n \<le> 2 ^ 53"
  shows "NumberOfString (digitsOf n) = Fin (of_int n)"
proof -
  let ?ds = "digitsOf n"
  have all: "list_all isDigit ?ds" by (rule digitsOf_digits)
  obtain c cs where ds: "?ds = c # cs"
    using digitsOf_nonempty [of n] by (cases ?ds) auto
  with all have c: "isDigit c" and rest: "list_all isDigit cs" by simp_all
  from all have plain: "list_all (\<lambda>c. isDigit c \<or> c = CHR ''-'') ?ds"
    by (simp add: list_all_iff)
  have skip: "skipWhiteSpace ?ds = ?ds"
    by (simp add: ds skipWhiteSpace_plain c)
  have trim: "trimRight ?ds = ?ds"
    by (rule trimRight_plain) (fact plain)
  have nd: "nonDecimalIntegerLiteral ?ds = None"
    by (rule nonDecimal_plain) (simp add: ds rest)
  from isDigit_cases [OF c] have sign: "c \<noteq> CHR ''-''" "c \<noteq> CHR ''+''" by auto
  have "strDecimalLiteral ?ds = strUnsignedDecimalLiteral ?ds"
    by (simp add: strDecimalLiteral_def ds sign)
  also have "\<dots> = roundDouble (of_int n)"
    by (rule unsigned_digits) (fact assms(1))
  also from assms have "\<dots> = Fin (of_int n)"
    by (intro roundDouble_of_int) simp
  finally show ?thesis
    by (simp add: NumberOfString_def Let_def skip trim digitsOf_nonempty strNumericLiteral_def nd)
qed

lemma Number_minus_digits:
  assumes "0 < n" "n \<le> 2 ^ 53"
  shows "NumberOfString (CHR ''-'' # digitsOf n) = Fin (- of_int n)"
proof -
  let ?s = "CHR ''-'' # digitsOf n"
  have all: "list_all isDigit (digitsOf n)" by (rule digitsOf_digits)
  then have plain: "list_all (\<lambda>c. isDigit c \<or> c = CHR ''-'') ?s"
    by (simp add: list_all_iff)
  have skip: "skipWhiteSpace ?s = ?s" by (simp add: skipWhiteSpace_plain)
  have trim: "trimRight ?s = ?s" by (rule trimRight_plain) (fact plain)
  have nd: "nonDecimalIntegerLiteral ?s = None"
    by (rule nonDecimal_plain) (simp add: all)
  from assms have "strUnsignedDecimalLiteral (digitsOf n) = Fin (of_int n)"
    by (simp add: unsigned_digits roundDouble_of_int)
  then have "strDecimalLiteral ?s = Fin (- of_int n)"
    by (simp add: strDecimalLiteral_def)
  then show ?thesis
    by (simp add: NumberOfString_def Let_def skip trim strNumericLiteral_def nd)
qed

subsection \<open>The string of an integer up to 2^53\<close>

text \<open>
  The shortest digits that round to an integer of at most \<open>2^53\<close> are its own digits
  without the zeros at its end, so that it prints as its decimal digits. The equation
  that follows lets evaluation take that case at once.
\<close>

lemma length_digitsOf: "0 < k \<Longrightarrow> n < 10 ^ k \<Longrightarrow> length (digitsOf n) \<le> k"
proof (induction n arbitrary: k rule: digitsOf.induct)
  case (1 n)
  show ?case
  proof (cases "n < 10")
    case True
    with 1 show ?thesis by (simp add: digitsOf.simps [of n])
  next
    case False
    with "1.prems" obtain j where k: "k = Suc j" by (cases k) auto
    from False "1.prems" k have j: "0 < j" by (cases j) auto
    define m where "m = (10::int) ^ j"
    from "1.prems" k have "n < 10 * m" by (simp add: m_def)
    then have "n div 10 < m" by arith
    then have "n div 10 < 10 ^ j" by (simp add: m_def)
    with "1.IH" [OF False j] have "length (digitsOf (n div 10)) \<le> j" by simp
    with False k show ?thesis by (simp add: digitsOf.simps [of n])
  qed
qed

lemma roundDouble_even:
  assumes lo: "2 ^ 53 < v" and hi: "v < 2 ^ 54" and ev: "even v"
  shows "roundDouble (of_int v) = Fin (of_int v)"
proof -
  from lo have vpos: "0 < v" by simp
  from bitlen_bounds [OF vpos]
  have bnd: "2 ^ (bitlen v - 1) \<le> v" "v < 2 ^ bitlen v" "0 < bitlen v" by simp_all
  have up: "\<not> bitlen v \<le> 53"
  proof
    assume "bitlen v \<le> 53"
    then have "(2::int) ^ bitlen v \<le> 2 ^ 53" by (rule power_increasing) simp
    with bnd(2) lo show False by simp
  qed
  have down: "\<not> 55 \<le> bitlen v"
  proof
    assume "55 \<le> bitlen v"
    then have "54 \<le> bitlen v - 1" by simp
    then have "(2::int) ^ 54 \<le> 2 ^ (bitlen v - 1)" by (rule power_increasing) simp
    with bnd(1) hi show False by simp
  qed
  from up down have len: "bitlen v = 54" by simp
  from vpos have one: "(1::rat) \<le> of_int v" by simp
  have lg: "ilog2 (of_int v) = 53"
    using one by (simp add: ilog2_def len)
  from ev obtain h where h: "v = 2 * h" by (elim evenE)
  have half: "(of_int v :: rat) / 2 = of_int h" by (simp add: h)
  have val: "of_int (roundHalfEven (of_int v / 2)) * 2 = (of_int v :: rat)"
    by (simp only: half roundHalfEven_of_int) (simp add: h)
  from vpos have nz: "(of_int v :: rat) \<noteq> 0" and pos: "0 < (of_int v :: rat)" by simp_all
  have a: "\<bar>(of_int v :: rat)\<bar> = of_int v" using vpos by simp
  have ulp: "pow2 (max 53 (- 1022) - 52) = 2" by (simp add: pow2_def)
  show ?thesis
    unfolding roundDouble_def Let_def a lg ulp val
    using nz pos by simp
qed

lemma digitsOf_shift:
  "0 < m \<Longrightarrow> digitsOf (m * 10 ^ j) = digitsOf m @ replicate j (CHR ''0'')"
proof (induction j)
  case 0
  then show ?case by simp
next
  case (Suc j)
  let ?v = "m * 10 ^ j"
  from Suc.prems have "0 < ?v" by simp
  then have big: "\<not> ?v * 10 < 10" by simp
  have "m * 10 ^ Suc j = ?v * 10" by simp
  then have "digitsOf (m * 10 ^ Suc j) = digitsOf (?v * 10)" by (simp only:)
  also have "\<dots> = digitsOf ?v @ [digit_char 0]"
    using big by (simp add: digitsOf.simps [of "?v * 10"])
  also have "\<dots> = digitsOf m @ replicate (Suc j) (CHR ''0'')"
    using Suc by (simp add: digit_char_def decimalDigits_def replicate_append_same)
  finally show ?case .
qed

lemma ilog10_of_int: "0 < n \<Longrightarrow> ilog10 (of_int n) = int (length (digitsOf n)) - 1"
  by (simp add: ilog10_def)

lemma pow10_diff: "k \<le> d \<Longrightarrow> pow10 (int d - int k) = of_int (10 ^ (d - k))"
  by (simp add: pow10_def nat_diff_distrib')

lemma digits_count:
  assumes "0 < n" "n \<le> 2 ^ 53"
  shows "length (digitsOf n) \<le> 16"
proof -
  from assms have "n < 10 ^ 16" by simp
  with length_digitsOf [of 16 n] show ?thesis by simp
qed

lemma candidates_lo:
  assumes n: "0 < n" "n \<le> 2 ^ 53"
    and k: "k \<le> length (digitsOf n)"
  shows "roundDouble (of_int \<lfloor>(of_int n :: rat) / pow10 (ilog10 (of_int n) + 1 - int k)\<rfloor>
                        * pow10 (ilog10 (of_int n) + 1 - int k)) = Fin (of_int n)
         \<longleftrightarrow> 10 ^ (length (digitsOf n) - k) dvd n"
proof -
  define p :: int where "p = 10 ^ (length (digitsOf n) - k)"
  have ppos: "0 < p" by (simp add: p_def)
  have scale: "pow10 (ilog10 (of_int n) + 1 - int k) = of_int p"
    using n(1) k by (simp add: ilog10_of_int pow10_diff p_def)
  have fl: "\<lfloor>(of_int n :: rat) / of_int p\<rfloor> = n div p"
    by (rule floor_divide_of_int_eq)
  have le: "n div p * p \<le> n" using ppos
    by (metis div_mult_mod_eq le_add_same_cancel1 pos_mod_sign)
  have ge: "0 \<le> n div p * p" using ppos n(1) by (simp add: pos_imp_zdiv_nonneg_iff)
  from le ge n(2) have small: "\<bar>n div p * p\<bar> \<le> 2 ^ 53" by simp
  have prod: "(of_int (n div p) :: rat) * of_int p = of_int (n div p * p)" by simp
  have "roundDouble (of_int (n div p) * (of_int p :: rat)) = Fin (of_int (n div p * p))"
    using roundDouble_of_int [OF small] by (simp only: prod)
  then have "roundDouble (of_int (n div p) * (of_int p :: rat)) = Fin (of_int n)
             \<longleftrightarrow> n div p * p = n"
    by (simp only: jsnum.inject of_int_eq_iff)
  also have "\<dots> \<longleftrightarrow> p dvd n"
    by (metis dvd_div_mult_self dvd_triv_right)
  finally have main: "roundDouble (of_int (n div p) * (of_int p :: rat)) = Fin (of_int n)
             \<longleftrightarrow> p dvd n" .
  show ?thesis
    unfolding scale fl using main by (simp add: p_def)
qed

lemma candidates_hi:
  assumes n: "0 < n" "n \<le> 2 ^ 53"
    and k: "k < length (digitsOf n)" and k1: "1 \<le> k"
  shows "roundDouble (of_int (\<lfloor>(of_int n :: rat) / pow10 (ilog10 (of_int n) + 1 - int k)\<rfloor> + 1)
                        * pow10 (ilog10 (of_int n) + 1 - int k)) \<noteq> Fin (of_int n)"
proof -
  define j where "j = length (digitsOf n) - k"
  define p :: int where "p = 10 ^ j"
  have ppos: "0 < p" by (simp add: p_def)
  from k have jpos: "0 < j" by (simp add: j_def)
  from digits_count [OF n] k1 have "j \<le> 15" by (simp add: j_def)
  then have "p \<le> 10 ^ 15" unfolding p_def by (rule power_increasing) simp
  then have pmax: "p \<le> 1000000000000000" by simp
  from jpos obtain i where i: "j = Suc i" by (cases j) auto
  have ev: "even p" by (simp add: p_def i)
  from k have kle: "k \<le> length (digitsOf n)" by simp
  have scale: "pow10 (ilog10 (of_int n) + 1 - int k) = of_int p"
    using n(1) kle by (simp add: ilog10_of_int pow10_diff p_def j_def)
  have fl: "\<lfloor>(of_int n :: rat) / of_int p\<rfloor> = n div p"
    by (rule floor_divide_of_int_eq)
  define v where "v = (n div p + 1) * p"
  have le: "n div p * p \<le> n" using ppos
    by (metis div_mult_mod_eq le_add_same_cancel1 pos_mod_sign)
  have "n mod p < p" using ppos by simp
  moreover have "n = n div p * p + n mod p" by simp
  ultimately have "n < n div p * p + p" by linarith
  then have gt: "n < v"
    by (simp add: v_def algebra_simps)
  from le have vle: "v \<le> n + p" by (simp add: v_def algebra_simps)
  from ev have evv: "even v" by (simp add: v_def)
  have r: "roundDouble (of_int v) = Fin (of_int v)"
  proof (cases "v \<le> 2 ^ 53")
    case True
    with gt n(1) have "\<bar>v\<bar> \<le> 2 ^ 53" by simp
    then show ?thesis by (rule roundDouble_of_int)
  next
    case False
    then have low: "2 ^ 53 < v" by simp
    from vle pmax n(2) have "v < 2 ^ 54" by simp
    with low show ?thesis using evv by (rule roundDouble_even)
  qed
  have "(of_int (n div p + 1) :: rat) * of_int p = of_int v"
    by (simp add: v_def)
  with r gt show ?thesis
    by (simp only: scale fl) simp
qed

lemma candidates_none:
  assumes n: "0 < n" "n \<le> 2 ^ 53"
    and k: "k \<le> length (digitsOf n)" and k1: "1 \<le> k"
    and nd: "\<not> 10 ^ (length (digitsOf n) - k) dvd n"
  shows "candidates (of_int n) k = None"
proof -
  have "k \<noteq> length (digitsOf n)"
  proof
    assume "k = length (digitsOf n)"
    with nd show False by simp
  qed
  with k have lt: "k < length (digitsOf n)" by simp
  from candidates_lo [OF n k] nd candidates_hi [OF n lt k1]
  show ?thesis
    unfolding candidates_def Let_def by simp
qed

lemma candidates_some:
  assumes n: "0 < n" "n \<le> 2 ^ 53"
    and k: "k \<le> length (digitsOf n)"
    and d: "10 ^ (length (digitsOf n) - k) dvd n"
  shows "candidates (of_int n) k
           = Some (n div 10 ^ (length (digitsOf n) - k), int (length (digitsOf n)))"
proof -
  define p :: int where "p = 10 ^ (length (digitsOf n) - k)"
  have ppos: "0 < p" by (simp add: p_def)
  have scale: "pow10 (ilog10 (of_int n) + 1 - int k) = of_int p"
    using n(1) k by (simp add: ilog10_of_int pow10_diff p_def)
  have fl: "\<lfloor>(of_int n :: rat) / of_int p\<rfloor> = n div p"
    by (rule floor_divide_of_int_eq)
  from d have exact: "n div p * p = n" by (simp add: p_def)
  then have lo: "(of_int (n div p) :: rat) * of_int p = of_int n"
    by (metis of_int_mult)
  have hi: "(of_int (n div p + 1) :: rat) * of_int p = of_int n + of_int p"
    using lo by (simp add: algebra_simps)
  have dist: "(of_int n :: rat) - of_int (n div p) * of_int p
              < of_int (n div p + 1) * of_int p - of_int n"
    using ppos by (simp only: lo hi)
  from exact n(2) n(1) have "\<bar>n div p * p\<bar> \<le> 2 ^ 53" by simp
  from roundDouble_of_int [OF this]
  have ok: "roundDouble (of_int (n div p) * (of_int p :: rat)) = Fin (of_int n)"
    by (simp only: exact lo of_int_mult)
  have nexp: "ilog10 (of_int n) + 1 = int (length (digitsOf n))"
    using n(1) by (simp add: ilog10_of_int)
  have scale': "pow10 (int (length (digitsOf n)) - int k) = of_int p"
    using k by (simp add: pow10_diff p_def)
  have res: "candidates (of_int n) k = Some (n div p, int (length (digitsOf n)))"
    unfolding candidates_def Let_def nexp scale' fl
    by (simp only: ok dist if_True simp_thms if_cancel)
  then show ?thesis by (simp only: p_def)
qed

lemma shortest_found:
  "candidates x k = Some (s, n) \<Longrightarrow> (\<And>i. j \<le> i \<Longrightarrow> i < k \<Longrightarrow> candidates x i = None) \<Longrightarrow>
   j \<le> k \<Longrightarrow> k - j < fuel \<Longrightarrow> shortest x j fuel = (s, n, k)"
proof (induction fuel arbitrary: j)
  case 0
  then show ?case by simp
next
  case (Suc fuel)
  show ?case
  proof (cases "j = k")
    case True
    with Suc.prems(1) show ?thesis by simp
  next
    case False
    with Suc.prems(3) have lt: "j < k" by simp
    with Suc.prems(2) [of j] have none: "candidates x j = None" by simp
    from lt Suc.prems(4) have "Suc j \<le> k" "k - Suc j < fuel" by simp_all
    with Suc.IH [of "Suc j"] Suc.prems(1,2) have "shortest x (Suc j) fuel = (s, n, k)"
      by simp
    with none show ?thesis by simp
  qed
qed

lemma shortest_integer:
  assumes n: "0 < n" "n \<le> 2 ^ 53"
  shows "formatDigits (shortest (of_int n) 1 17) = digitsOf n"
proof -
  define d where "d = length (digitsOf n)"
  have dpos: "0 < d" using digitsOf_nonempty [of n] by (simp add: d_def)
  from digits_count [OF n] have dmax: "d \<le> 16" by (simp add: d_def)
  define good where "good = (\<lambda>k. 1 \<le> k \<and> k \<le> d \<and> 10 ^ (d - k) dvd n)"
  have "good d" using dpos by (simp add: good_def)
  define k where "k = (LEAST k. good k)"
  from \<open>good d\<close> have gk: "good k" unfolding k_def by (rule LeastI)
  have least: "\<And>i. i < k \<Longrightarrow> \<not> good i" unfolding k_def by (rule not_less_Least)
  from gk have k1: "1 \<le> k" and kd: "k \<le> d" and dv: "10 ^ (d - k) dvd n"
    by (simp_all add: good_def)
  have some: "candidates (of_int n) k = Some (n div 10 ^ (d - k), int d)"
    using candidates_some [OF n] kd dv by (simp add: d_def)
  have none: "candidates (of_int n) i = None" if "1 \<le> i" "i < k" for i
  proof -
    from that kd have id: "i \<le> d" by simp
    from least [OF that(2)] that(1) id have "\<not> 10 ^ (d - i) dvd n" by (simp add: good_def)
    with candidates_none [OF n] id that(1) show ?thesis by (simp add: d_def)
  qed
  from kd dmax k1 have fuel: "k - 1 < 17" by simp
  from shortest_found [OF some none k1 fuel]
  have sh: "shortest (of_int n) 1 17 = (n div 10 ^ (d - k), int d, k)" by simp
  from dv have whole: "n div 10 ^ (d - k) * 10 ^ (d - k) = n" by simp
  have mpos: "0 < n div 10 ^ (d - k)"
  proof (rule ccontr)
    assume "\<not> 0 < n div 10 ^ (d - k)"
    moreover from n(1) have "0 \<le> n div 10 ^ (d - k)" by (simp add: pos_imp_zdiv_nonneg_iff)
    ultimately have "n div 10 ^ (d - k) = 0" by simp
    with whole n(1) show False by simp
  qed
  from kd dmax have cond: "int k \<le> int d \<and> int d \<le> 21" by simp
  have "formatDigits (n div 10 ^ (d - k), int d, k)
      = digitsOf (n div 10 ^ (d - k)) @ replicate (d - k) (CHR ''0'')"
    using cond kd by (simp add: formatDigits_def Let_def nat_diff_distrib')
  also have "\<dots> = digitsOf (n div 10 ^ (d - k) * 10 ^ (d - k))"
    by (rule digitsOf_shift [OF mpos, symmetric])
  finally show ?thesis by (simp only: sh whole)
qed

lemma stringOfPositive_code [code]:
  "stringOfPositive q =
     (if of_int \<lfloor>q\<rfloor> = q \<and> 0 < q \<and> q \<le> 2 ^ 53 then digitsOf \<lfloor>q\<rfloor>
      else formatDigits (shortest q 1 17))"
proof (cases "of_int \<lfloor>q\<rfloor> = q \<and> 0 < q \<and> q \<le> 2 ^ 53")
  case True
  then have q: "of_int \<lfloor>q\<rfloor> = q" and pos: "0 < q" and le: "q \<le> 2 ^ 53"
    by simp_all
  from pos have "0 < (of_int \<lfloor>q\<rfloor> :: rat)" by (simp only: q)
  then have fpos: "0 < \<lfloor>q\<rfloor>" by simp
  from le have "(of_int \<lfloor>q\<rfloor> :: rat) \<le> of_int (2 ^ 53)" by (simp only: q) simp
  then have fle: "\<lfloor>q\<rfloor> \<le> 2 ^ 53" by (simp only: of_int_le_iff)
  from shortest_integer [OF fpos fle]
  have "formatDigits (shortest q 1 17) = digitsOf \<lfloor>q\<rfloor>" by (simp only: q)
  then have "stringOfPositive q = digitsOf \<lfloor>q\<rfloor>"
    by (simp only: stringOfPositive_def)
  also have "digitsOf \<lfloor>q\<rfloor>
      = (if of_int \<lfloor>q\<rfloor> = q \<and> 0 < q \<and> q \<le> 2 ^ 53 then digitsOf \<lfloor>q\<rfloor>
         else formatDigits (shortest q 1 17))"
    by (rule if_P [symmetric]) (fact True)
  finally show ?thesis .
next
  case False
  have "stringOfPositive q = formatDigits (shortest q 1 17)"
    by (simp only: stringOfPositive_def)
  also have "\<dots>
      = (if of_int \<lfloor>q\<rfloor> = q \<and> 0 < q \<and> q \<le> 2 ^ 53 then digitsOf \<lfloor>q\<rfloor>
         else formatDigits (shortest q 1 17))"
    by (rule if_not_P [symmetric]) (fact False)
  finally show ?thesis .
qed

lemma jsString_of_int:
  assumes "\<bar>n\<bar> \<le> 2 ^ 53"
  shows "jsString (Fin (of_int n)) = (if n < 0 then CHR ''-'' # digitsOf (- n) else digitsOf n)"
proof -
  have zero: "digitsOf 0 = ''0''"
    by (simp add: digitsOf.simps [of 0] digit_char_def decimalDigits_def)
  have pos: "stringOfPositive (of_int m) = digitsOf m" if "0 < m" "m \<le> 2 ^ 53" for m
    unfolding stringOfPositive_def using that by (rule shortest_integer)
  consider "n = 0" | "0 < n" | "n < 0" by linarith
  then show ?thesis
  proof cases
    case 1
    then show ?thesis by (simp add: zero)
  next
    case 2
    with assms have "n \<le> 2 ^ 53" by simp
    from pos [OF 2 this] have str: "stringOfPositive (of_int n) = digitsOf n" .
    from 2 have q: "(of_int n :: rat) \<noteq> 0" "\<not> (of_int n :: rat) < 0" "\<not> n < 0" by simp_all
    show ?thesis by (simp only: jsString.simps q if_False str)
  next
    case 3
    with assms have m: "0 < - n" "- n \<le> 2 ^ 53" by simp_all
    have neg: "- (of_int n :: rat) = of_int (- n)" by simp
    from pos [OF m] have str: "stringOfPositive (of_int (- n)) = digitsOf (- n)" .
    from 3 have q: "(of_int n :: rat) \<noteq> 0" "(of_int n :: rat) < 0" by simp_all
    have "jsString (Fin (of_int n)) = ''-'' @ digitsOf (- n)"
      by (simp only: jsString.simps q if_False if_True neg str)
    with 3 show ?thesis by (simp only: if_True append.simps)
  qed
qed

lemma Number_jsString:
  assumes "\<bar>n\<bar> \<le> 2 ^ 53"
  shows "NumberOfString (jsString (Fin (of_int n))) = Fin (of_int n)"
proof (cases "n < 0")
  case True
  from jsString_of_int [OF assms] True
  have eq: "jsString (Fin (of_int n)) = CHR ''-'' # digitsOf (- n)"
    by (simp only: if_True)
  from True assms have "0 < - n" "- n \<le> 2 ^ 53" by simp_all
  then have "NumberOfString (CHR ''-'' # digitsOf (- n)) = Fin (- of_int (- n))"
    by (rule Number_minus_digits)
  then show ?thesis by (simp only: eq) simp
next
  case False
  from jsString_of_int [OF assms] False
  have eq: "jsString (Fin (of_int n)) = digitsOf n"
    by (simp only: if_False)
  from False assms have "0 \<le> n" "n \<le> 2 ^ 53" by simp_all
  then have "NumberOfString (digitsOf n) = Fin (of_int n)"
    by (rule Number_digits)
  then show ?thesis by (simp only: eq)
qed

lemma jsAdd_exact:
  "\<bar>a + b\<bar> \<le> 2 ^ 53 \<Longrightarrow> jsAdd (Fin (of_int a)) (Fin (of_int b)) = Fin (of_int (a + b))"
  using roundDouble_of_int [of "a + b"] by simp

lemma jsGreater_of_int: "jsGreater (Fin (of_int a)) (Fin (of_int b)) = (b < a)"
  by simp

lemma length_addLeadingZeros:
  "0 \<le> n \<Longrightarrow> n < 10 ^ k \<Longrightarrow> 0 < k \<Longrightarrow> length (addLeadingZeros n k) = k"
proof -
  assume n: "0 \<le> n" "n < 10 ^ k" and k: "0 < k"
  from k n(2) have "length (digitsOf n) \<le> k" by (rule length_digitsOf)
  with n show ?thesis by (simp add: addLeadingZeros_def Let_def)
qed

section \<open>Lemmas on the stores and the checks\<close>

lemma scan_count:
  "(c \<le> length (redis_scan r t user (Suc c))) = (c \<le> length (userKeys r t user))"
  by (simp add: redis_scan_def)

lemma scan_all: "length (userKeys r t user) \<le> c \<Longrightarrow> redis_scan r t user c = userKeys r t user"
  by (simp add: redis_scan_def)

lemma assertConcurrentLimit_eq:
  "assertConcurrentLimit cfg e user s =
     (if concurrent cfg \<le> length (userKeys (redis s) (now e) user)
      then (Inl UploadConcurrentLimit, s) else (Inr (), s))"
  by (simp add: assertConcurrentLimit_def Let_def scan_count)

lemma getTotalUsageByUpdated_eq:
  "getTotalUsageByUpdated cfg user n s =
     (if jsGreater (jsAdd (currentUsage s user) n) (totalSize cfg) then (Inl NotEnoughTotalUsage, s)
      else (Inr (jsAdd (currentUsage s user) n), s))"
  by (simp add: getTotalUsageByUpdated_def currentUsage_def Let_def)

lemma assertConcurrentFileSize_eq:
  "assertConcurrentFileSize cfg e user base s =
     (if jsGreater
           (inFlightTotal (redis s) (now e) base
              (redis_scan (redis s) (now e) user (concurrent cfg + 1)))
           (totalSize cfg)
      then (Inl NotEnoughTotalUsage, s) else (Inr (), s))"
  by (simp add: assertConcurrentFileSize_def inFlightTotal_def sessionSize_def Let_def)

lemma inFlightTotal_exact:
  "list_all (\<lambda>z. 0 \<le> z) zs \<Longrightarrow> 0 \<le> b \<Longrightarrow> b + sum_list zs \<le> 2 ^ 53 \<Longrightarrow>
   map (sessionSize r t) keys = map (\<lambda>z. Fin (of_int z)) zs \<Longrightarrow>
   inFlightTotal r t (Fin (of_int b)) keys = Fin (of_int (b + sum_list zs))"
proof (induction zs arbitrary: b keys)
  case Nil
  then show ?case by (simp add: inFlightTotal_def)
next
  case (Cons z zs)
  from Cons.prems(4) obtain key rest where keys: "keys = key # rest"
    and size: "sessionSize r t key = Fin (of_int z)"
    and sizes: "map (sessionSize r t) rest = map (\<lambda>z. Fin (of_int z)) zs"
    by (cases keys) auto
  from Cons.prems have z: "0 \<le> z" and zs: "list_all (\<lambda>z. 0 \<le> z) zs" by simp_all
  then have "0 \<le> sum_list zs" by (induction zs) simp_all
  with Cons.prems z have small: "\<bar>b + z\<bar> \<le> 2 ^ 53" by simp
  from z Cons.prems have "0 \<le> b + z" "(b + z) + sum_list zs \<le> 2 ^ 53" by simp_all
  from Cons.IH [OF zs this sizes]
  have ih: "inFlightTotal r t (Fin (of_int (b + z))) rest = Fin (of_int (b + z + sum_list zs))" .
  have step: "jsAdd (Fin (of_int b)) (Fin (of_int z)) = Fin (of_int (b + z))"
    by (rule jsAdd_exact [OF small])
  have "inFlightTotal r t (Fin (of_int b)) keys
      = inFlightTotal r t (jsAdd (Fin (of_int b)) (sessionSize r t key)) rest"
    by (simp add: inFlightTotal_def keys)
  also have "\<dots> = inFlightTotal r t (Fin (of_int (b + z))) rest"
    by (simp only: size step)
  also have "\<dots> = Fin (of_int (b + z + sum_list zs))"
    by (fact ih)
  finally show ?case by (simp add: add.assoc)
qed

lemma map_of_live_filter_neq:
  "map_of (live t (filter (\<lambda>(k, h, ex). k \<noteq> key) r)) key = None"
  by (induction r) (auto simp: live_def)

lemma hash_of_del: "redis_hash_of (redis_del r key) t key = []"
  by (simp add: redis_hash_of_def redis_del_def map_of_live_filter_neq)


lemma hash_of_hmset_expired:
  assumes "t + seconds * 1000 \<le> t'"
  shows "redis_hash_of (redis_hmset r t key kvs seconds) t' key = []"
proof -
  let ?rest = "filter (\<lambda>(k, h, ex). k \<noteq> key) r"
  let ?entry = "(key, kvs @ redis_hash_of r t key, t + seconds * 1000)"
  have "live t' (?rest @ [?entry]) = live t' ?rest"
    using assms by (simp add: live_def)
  moreover have "map_of (live t' ?rest) key = None"
    by (rule map_of_live_filter_neq)
  ultimately show ?thesis
    by (simp add: redis_hash_of_def redis_hmset_def)
qed

lemma hash_of_expired:
  "list_all (\<lambda>(k, h, ex). k \<noteq> key \<or> ex \<le> t) r \<Longrightarrow> redis_hash_of r t key = []"
proof -
  assume "list_all (\<lambda>(k, h, ex). k \<noteq> key \<or> ex \<le> t) r"
  then have "map_of (live t r) key = None"
    by (induction r) (auto simp: live_def)
  then show ?thesis by (simp add: redis_hash_of_def)
qed

lemma getFileInfoByRedis_empty:
  "redis_hash_of (redis s) (now e) (user, fuuid) = [] \<Longrightarrow>
   getFileInfoByRedis e user fuuid s = (Inl FileNotFound, s)"
  by (simp add: getFileInfoByRedis_def redis_hmget_def field_of_def Let_def)

lemma getFileInfoByRedis_state: "snd (getFileInfoByRedis e user fuuid s) = s"
  by (simp add: getFileInfoByRedis_def Let_def)

lemma getFileInfoByRedis_rejects:
  "(fst (getFileInfoByRedis e user fuuid s) = Inl FileNotFound)
     = sessionUnusable (redis s) (now e) (user, fuuid)"
  by (auto simp: getFileInfoByRedis_def sessionUnusable_def missingOrEmpty_def redis_hmget_def
      field_of_def orUndefined_def isNaN_def Let_def split: option.splits)

lemma getFileInfoByRedis_unusable:
  "sessionUnusable (redis s) (now e) (user, fuuid) \<Longrightarrow>
   getFileInfoByRedis e user fuuid s = (Inl FileNotFound, s)"
  using getFileInfoByRedis_rejects [of e user fuuid s] getFileInfoByRedis_state [of e user fuuid s]
  by (metis prod.collapse)

lemma getFileInfoByRedis_usable:
  "\<not> sessionUnusable (redis s) (now e) (user, fuuid) \<Longrightarrow>
   \<exists>info. getFileInfoByRedis e user fuuid s = (Inr info, s)"
  using getFileInfoByRedis_rejects [of e user fuuid s]
  by (auto simp: getFileInfoByRedis_def Let_def split: if_splits)

lemma map_of_upsert: "map_of (upsert k v xs) k = Some v"
  by (induction xs) auto

lemma start_eq:
  "start cfg e user config s =
     (if concurrent cfg \<le> length (redis_scan (redis s) (now e) user (concurrent cfg + 1))
      then (Inl UploadConcurrentLimit, s)
      else if capacityExceeded cfg e user (fileSize config) s then (Inl NotEnoughTotalUsage, s)
      else case dirAssertExists e (targetDirectoryPath config) of
             Some err \<Rightarrow> (Inl err, s)
           | None \<Rightarrow>
               (Inr \<lparr>fileUUID = v4 e,
                     ossFilePath = generateOSSFilePath cfg e (fileName config) (v4 e),
                     ossDomain = ossHost e,
                     policy = fst (policyTemplate e (fileName config)
                                (generateOSSFilePath cfg e (fileName config) (v4 e)) (fileSize config)),
                     signature = snd (policyTemplate e (fileName config)
                                (generateOSSFilePath cfg e (fileName config) (v4 e)) (fileSize config))\<rparr>,
                s\<lparr>redis := redis_hmset (redis s) (now e) (user, v4 e)
                      [(''fileName'', fileName config),
                       (''fileSize'', jsString (fileSize config)),
                       (''targetDirectoryPath'', targetDirectoryPath config),
                       (''fileResourceType'', getFileResourceTypeByFileName e (fileName config))]
                      (60 * 20)\<rparr>))"
  by (simp add: start_def assertConcurrentLimit_def getTotalUsageByUpdated_eq
      assertConcurrentFileSize_eq capacityExceeded_def Let_def split: option.splits)

lemma sessionSize_unreadable:
  "map_of (redis_hash_of r t key) ''fileSize'' = None \<Longrightarrow> sessionSize r t key = Fin 0"
  by (simp add: sessionSize_def redis_hmget1_def field_of_def)

lemma sessionSize_value:
  "map_of (redis_hash_of r t key) ''fileSize'' = Some v \<Longrightarrow>
   sessionSize r t key = orZero (NumberOfString v)"
  by (simp add: sessionSize_def redis_hmget1_def field_of_def)

lemma redis_del_absent: "map_of (redis_del r key) key = None"
  by (induction r) (auto simp: redis_del_def)

lemma finish_after_delete:
  "redis s = redis_del r (user, fuuid) \<Longrightarrow> finish cfg e user fuuid s = (Inl FileNotFound, s)"
  by (simp add: finish_def getFileInfoByRedis_empty hash_of_del)

section \<open>The capacity check (C1)\<close>

text \<open>
  C1 as stated fails. With three live sessions, a usage of 9500 and a request of 1000
  bytes against a limit of 10000, \<open>start\<close> rejects with \<open>UploadConcurrentLimit\<close>, not with
  \<open>NotEnoughTotalUsage\<close>: the concurrency check runs first. \<open>finish\<close> of a session of 1000
  bytes with that usage rejects with the error of the directory check when the directory is
  gone. And with a usage of \<open>2^53 = 9007199254740992\<close>, a size of 1 and a limit of \<open>2^53\<close>,
  the usage plus the size is above the limit, yet the sum of the two doubles is \<open>2^53\<close>
  again and the capacity check passes and returns it.
\<close>

theorem start_capacity_counterexample:
  "jsGreater (fileSize exConfig) (Fin 0)
   \<and> jsGreater
        (jsAdd (currentUsage (exStore [exSession ''f1'' ''1000'', exSession ''f2'' ''1000'',
                                       exSession ''f3'' ''1000''] [(''u'', ''9500'')]) ''u'')
           (fileSize exConfig))
        (totalSize exCfg)
   \<and> start exCfg exEnv ''u'' exConfig
        (exStore [exSession ''f1'' ''1000'', exSession ''f2'' ''1000'', exSession ''f3'' ''1000'']
           [(''u'', ''9500'')])
      = (Inl UploadConcurrentLimit,
         exStore [exSession ''f1'' ''1000'', exSession ''f2'' ''1000'', exSession ''f3'' ''1000'']
           [(''u'', ''9500'')])
   \<and> fst (getFileInfoByRedis exEnvNoDir ''u'' ''f1'' (exStore [exSession ''f1'' ''1000''] [(''u'', ''9500'')]))
      = Inr \<lparr>fileName = ''a.png'', fileSize = Fin 1000, targetDirectoryPath = ''/docs/'',
             fileResourceType = ''NormalResources''\<rparr>
   \<and> jsGreater
        (jsAdd (currentUsage (exStore [exSession ''f1'' ''1000''] [(''u'', ''9500'')]) ''u'') (Fin 1000))
        (totalSize exCfg)
   \<and> finish exCfg exEnvNoDir ''u'' ''f1'' (exStore [exSession ''f1'' ''1000''] [(''u'', ''9500'')])
      = (Inl (OtherError ''DirectoryNotExists''),
         exStore [exSession ''f1'' ''1000''] [(''u'', ''9500'')])
   \<and> currentUsage (exStore [] [(''u'', ''9007199254740992'')]) ''u'' = Fin 9007199254740992
   \<and> totalSize exCfgTight = Fin 9007199254740992
   \<and> (9007199254740992 :: rat) < 9007199254740992 + 1
   \<and> getTotalUsageByUpdated exCfgTight ''u'' (Fin 1) (exStore [] [(''u'', ''9007199254740992'')])
      = (Inr (Fin 9007199254740992), exStore [] [(''u'', ''9007199254740992'')])"
  by code_simp

text \<open>
  C1 (amended). For a file size greater than 0: \<open>getTotalUsageByUpdated\<close> adds the size to
  the current usage of the user (0 when there is no usage row) as JavaScript adds two
  numbers, rejects with \<open>NotEnoughTotalUsage\<close> when that sum is strictly above \<open>totalSize\<close>,
  and otherwise returns that sum, leaving the stores as they are. The sum is the exact
  sum, and the comparison the comparison of integers, when usage and size are integers
  and the sum is at most \<open>2^53\<close> in magnitude; a usage row holding the digits of an
  integer up to \<open>2^53\<close> reads as that integer. \<open>start\<close> rejects with \<open>NotEnoughTotalUsage\<close>
  when the sum is above the limit and the concurrency check before it passes; \<open>finish\<close>
  does when the session loads, the directory exists and the object exists, the three
  steps before its capacity check.
\<close>

theorem capacity_check:
  "jsGreater n (Fin 0) \<Longrightarrow>
   getTotalUsageByUpdated cfg user n s =
     (if jsGreater (jsAdd (currentUsage s user) n) (totalSize cfg) then (Inl NotEnoughTotalUsage, s)
      else (Inr (jsAdd (currentUsage s user) n), s))
   \<and> (map_of (cloudStorageConfigs s) user = None \<longrightarrow> currentUsage s user = Fin 0)
   \<and> (map_of (cloudStorageConfigs s) user = Some (digitsOf u) \<and> 0 \<le> u \<and> u \<le> 2 ^ 53
      \<longrightarrow> currentUsage s user = Fin (of_int u))
   \<and> (currentUsage s user = Fin (of_int a) \<and> n = Fin (of_int b) \<and> \<bar>a + b\<bar> \<le> 2 ^ 53
      \<longrightarrow> jsAdd (currentUsage s user) n = Fin (of_int (a + b)))
   \<and> (currentUsage s user = Fin (of_int a) \<and> n = Fin (of_int b) \<and> \<bar>a + b\<bar> \<le> 2 ^ 53
        \<and> totalSize cfg = Fin (of_int l)
      \<longrightarrow> jsGreater (jsAdd (currentUsage s user) n) (totalSize cfg) = (l < a + b))
   \<and> (length (userKeys (redis s) (now e) user) < concurrent cfg \<and> fileSize config = n
        \<and> jsGreater (jsAdd (currentUsage s user) n) (totalSize cfg)
      \<longrightarrow> start cfg e user config s = (Inl NotEnoughTotalUsage, s))
   \<and> (getFileInfoByRedis e user fuuid s = (Inr info, s) \<and> fileSize info = n
        \<and> dirAssertExists e (targetDirectoryPath info) = None
        \<and> ossAssertExists e (generateOSSFilePath cfg e (fileName info) fuuid) = None
        \<and> jsGreater (jsAdd (currentUsage s user) n) (totalSize cfg)
      \<longrightarrow> finish cfg e user fuuid s = (Inl NotEnoughTotalUsage, s))"
proof -
  have absent: "map_of (cloudStorageConfigs s) user = None \<longrightarrow> currentUsage s user = Fin 0"
    by (simp add: currentUsage_def findOne_total_usage_def)
  have row: "map_of (cloudStorageConfigs s) user = Some (digitsOf u) \<and> 0 \<le> u \<and> u \<le> 2 ^ 53
      \<longrightarrow> currentUsage s user = Fin (of_int u)"
    by (simp add: currentUsage_def findOne_total_usage_def Number_digits)
  have exact: "currentUsage s user = Fin (of_int a) \<and> n = Fin (of_int b) \<and> \<bar>a + b\<bar> \<le> 2 ^ 53
      \<longrightarrow> jsAdd (currentUsage s user) n = Fin (of_int (a + b))"
    using jsAdd_exact [of a b] by simp
  have cmp: "currentUsage s user = Fin (of_int a) \<and> n = Fin (of_int b) \<and> \<bar>a + b\<bar> \<le> 2 ^ 53
        \<and> totalSize cfg = Fin (of_int l)
      \<longrightarrow> jsGreater (jsAdd (currentUsage s user) n) (totalSize cfg) = (l < a + b)"
  proof (intro impI)
    assume h: "currentUsage s user = Fin (of_int a) \<and> n = Fin (of_int b) \<and> \<bar>a + b\<bar> \<le> 2 ^ 53
        \<and> totalSize cfg = Fin (of_int l)"
    then have "jsAdd (currentUsage s user) n = Fin (of_int (a + b))"
      using jsAdd_exact [of a b] by simp
    with h show "jsGreater (jsAdd (currentUsage s user) n) (totalSize cfg) = (l < a + b)"
      by (simp only: jsGreater_of_int)
  qed
  have check: "getTotalUsageByUpdated cfg user n s =
     (if jsGreater (jsAdd (currentUsage s user) n) (totalSize cfg) then (Inl NotEnoughTotalUsage, s)
      else (Inr (jsAdd (currentUsage s user) n), s))"
    by (rule getTotalUsageByUpdated_eq)
  have st: "length (userKeys (redis s) (now e) user) < concurrent cfg \<and> fileSize config = n
        \<and> jsGreater (jsAdd (currentUsage s user) n) (totalSize cfg)
      \<longrightarrow> start cfg e user config s = (Inl NotEnoughTotalUsage, s)"
    by (simp add: start_def assertConcurrentLimit_eq getTotalUsageByUpdated_eq)
  have fi: "getFileInfoByRedis e user fuuid s = (Inr info, s) \<and> fileSize info = n
        \<and> dirAssertExists e (targetDirectoryPath info) = None
        \<and> ossAssertExists e (generateOSSFilePath cfg e (fileName info) fuuid) = None
        \<and> jsGreater (jsAdd (currentUsage s user) n) (totalSize cfg)
      \<longrightarrow> finish cfg e user fuuid s = (Inl NotEnoughTotalUsage, s)"
    by (simp add: finish_def getTotalUsageByUpdated_eq Let_def)
  from check absent row exact cmp st fi show ?thesis by blast
qed

text \<open>
  The hypotheses hold for the user \<open>u\<close> with one live session of 1000 bytes and a usage
  of 9500: the sum is 10500, above 10000. With no usage row the usage is 0 and the check
  returns 1000.
\<close>

theorem capacity_check_witness:
  "jsGreater (Fin 1000) (Fin 0)
   \<and> currentUsage (exStore [exSession ''f1'' ''1000''] [(''u'', ''9500'')]) ''u'' = Fin 9500
   \<and> jsAdd (currentUsage (exStore [exSession ''f1'' ''1000''] [(''u'', ''9500'')]) ''u'') (Fin 1000)
       = Fin 10500
   \<and> getTotalUsageByUpdated exCfg ''u'' (Fin 1000) (exStore [exSession ''f1'' ''1000''] [(''u'', ''9500'')])
       = (Inl NotEnoughTotalUsage, exStore [exSession ''f1'' ''1000''] [(''u'', ''9500'')])
   \<and> currentUsage (exStore [exSession ''f1'' ''1000''] []) ''u'' = Fin 0
   \<and> getTotalUsageByUpdated exCfg ''u'' (Fin 1000) (exStore [exSession ''f1'' ''1000''] [])
       = (Inr (Fin 1000), exStore [exSession ''f1'' ''1000''] [])
   \<and> start exCfg exEnv ''u'' exConfig (exStore [exSession ''f1'' ''1000''] [(''u'', ''9500'')])
       = (Inl NotEnoughTotalUsage, exStore [exSession ''f1'' ''1000''] [(''u'', ''9500'')])
   \<and> finish exCfg exEnv ''u'' ''f1'' (exStore [exSession ''f1'' ''1000''] [(''u'', ''9500'')])
       = (Inl NotEnoughTotalUsage, exStore [exSession ''f1'' ''1000''] [(''u'', ''9500'')])"
proof -
  let ?st = "exStore [exSession ''f1'' ''1000''] [(''u'', ''9500'')]"
  let ?empty = "exStore [exSession ''f1'' ''1000''] []"
  let ?info = "\<lparr>fileName = ''a.png'', fileSize = Fin 1000, targetDirectoryPath = ''/docs/'',
                fileResourceType = ''NormalResources''\<rparr>"
  have pos: "jsGreater (Fin 1000) (Fin 0)" by simp
  have row: "map_of (cloudStorageConfigs ?st) ''u'' = Some (digitsOf 9500)" by code_simp
  have norow: "map_of (cloudStorageConfigs ?empty) ''u'' = None" by code_simp
  have limit: "totalSize exCfg = Fin (of_int 10000)" by code_simp
  have slots: "length (userKeys (redis ?st) (now exEnv) ''u'') < concurrent exCfg" by code_simp
  have fsz: "fileSize exConfig = Fin 1000" by code_simp
  have load: "getFileInfoByRedis exEnv ''u'' ''f1'' ?st = (Inr ?info, ?st)" by code_simp
  have isize: "fileSize ?info = Fin 1000" by simp
  have dir: "dirAssertExists exEnv (targetDirectoryPath ?info) = None" by code_simp
  have oss: "ossAssertExists exEnv (generateOSSFilePath exCfg exEnv (fileName ?info) ''f1'') = None"
    by code_simp
  note a = capacity_check [OF pos, of exCfg "''u''" ?st 9500 9500 1000 10000 exEnv exConfig "''f1''" ?info]
  note b = capacity_check [OF pos, of exCfg "''u''" ?empty 0 0 1000 10000 exEnv exConfig "''f1''" ?info]
  from a row have usage: "currentUsage ?st ''u'' = Fin 9500" by simp
  from b norow have usage0: "currentUsage ?empty ''u'' = Fin 0" by simp
  from a usage have sum: "jsAdd (currentUsage ?st ''u'') (Fin 1000) = Fin 10500" by simp
  from b usage0 have sum0: "jsAdd (currentUsage ?empty ''u'') (Fin 1000) = Fin 1000" by simp
  from a usage limit have over: "jsGreater (jsAdd (currentUsage ?st ''u'') (Fin 1000)) (totalSize exCfg)"
    by simp
  from b usage0 limit have under: "\<not> jsGreater (jsAdd (currentUsage ?empty ''u'') (Fin 1000)) (totalSize exCfg)"
    by simp
  from a over have c1: "getTotalUsageByUpdated exCfg ''u'' (Fin 1000) ?st = (Inl NotEnoughTotalUsage, ?st)"
    by simp
  from b under sum0 have c2: "getTotalUsageByUpdated exCfg ''u'' (Fin 1000) ?empty = (Inr (Fin 1000), ?empty)"
    by simp
  from a over slots fsz have c3: "start exCfg exEnv ''u'' exConfig ?st = (Inl NotEnoughTotalUsage, ?st)"
    by blast
  from a over load isize dir oss have c4: "finish exCfg exEnv ''u'' ''f1'' ?st = (Inl NotEnoughTotalUsage, ?st)"
    by blast
  from pos usage sum c1 usage0 c2 c3 c4 show ?thesis by blast
qed

section \<open>The order of the checks of start (C2)\<close>

text \<open>
  C2. \<open>start\<close> checks in this order, and the first check that fails gives the error.
  (1) When the scan, capped at \<open>concurrent + 1\<close> keys, finds at least \<open>concurrent\<close> live
  sessions of the user, which is the case exactly when the user has that many, \<open>start\<close>
  rejects with \<open>UploadConcurrentLimit\<close>, whatever the usage, the sessions' sizes and the
  directory are. (2) Otherwise, when the capacity is exceeded, it rejects with
  \<open>NotEnoughTotalUsage\<close>, whatever the directory is. (3) Otherwise, when the directory check
  fails, its error is the error of \<open>start\<close>. Otherwise \<open>start\<close> returns. The stores are
  unchanged in the three failures.
\<close>

theorem start_check_order:
  "(concurrent cfg \<le> length (redis_scan (redis s) (now e) user (concurrent cfg + 1))
      \<longrightarrow> start cfg e user config s = (Inl UploadConcurrentLimit, s))
   \<and> ((concurrent cfg \<le> length (redis_scan (redis s) (now e) user (concurrent cfg + 1)))
        = (concurrent cfg \<le> length (userKeys (redis s) (now e) user)))
   \<and> (length (redis_scan (redis s) (now e) user (concurrent cfg + 1)) < concurrent cfg
        \<and> capacityExceeded cfg e user (fileSize config) s
      \<longrightarrow> start cfg e user config s = (Inl NotEnoughTotalUsage, s))
   \<and> (length (redis_scan (redis s) (now e) user (concurrent cfg + 1)) < concurrent cfg
        \<and> \<not> capacityExceeded cfg e user (fileSize config) s
        \<and> dirAssertExists e (targetDirectoryPath config) = Some err
      \<longrightarrow> start cfg e user config s = (Inl err, s))
   \<and> (length (redis_scan (redis s) (now e) user (concurrent cfg + 1)) < concurrent cfg
        \<and> \<not> capacityExceeded cfg e user (fileSize config) s
        \<and> dirAssertExists e (targetDirectoryPath config) = None
      \<longrightarrow> (\<exists>ret s'. start cfg e user config s = (Inr ret, s')))"
  by (simp add: start_eq scan_count split: option.splits flip: not_le)

text \<open>
  The cases on the examples: three live sessions; one
  session and a usage of 9500; one session of 1000 bytes and a usage of 8500; one session
  and no usage with the directory gone, and with the directory there.
\<close>

theorem start_check_order_witness:
  "start exCfg exEnvNoDir ''u'' exConfig
      (exStore [exSession ''f1'' ''1000'', exSession ''f2'' ''1000'', exSession ''f3'' ''1000'']
         [(''u'', ''9500'')])
     = (Inl UploadConcurrentLimit,
        exStore [exSession ''f1'' ''1000'', exSession ''f2'' ''1000'', exSession ''f3'' ''1000'']
          [(''u'', ''9500'')])
   \<and> start exCfg exEnvNoDir ''u'' exConfig (exStore [exSession ''f1'' ''1000''] [(''u'', ''9500'')])
     = (Inl NotEnoughTotalUsage, exStore [exSession ''f1'' ''1000''] [(''u'', ''9500'')])
   \<and> start exCfg exEnvNoDir ''u'' exConfig (exStore [exSession ''f1'' ''1000''] [(''u'', ''8500'')])
     = (Inl NotEnoughTotalUsage, exStore [exSession ''f1'' ''1000''] [(''u'', ''8500'')])
   \<and> start exCfg exEnvNoDir ''u'' exConfig (exStore [exSession ''f1'' ''1000''] [])
     = (Inl (OtherError ''DirectoryNotExists''), exStore [exSession ''f1'' ''1000''] [])
   \<and> (\<exists>ret s'. start exCfg exEnv ''u'' exConfig (exStore [exSession ''f1'' ''1000''] [])
         = (Inr ret, s'))"
proof -
  let ?full = "exStore [exSession ''f1'' ''1000'', exSession ''f2'' ''1000'', exSession ''f3'' ''1000'']
                 [(''u'', ''9500'')]"
  let ?over = "exStore [exSession ''f1'' ''1000''] [(''u'', ''9500'')]"
  let ?inflight = "exStore [exSession ''f1'' ''1000''] [(''u'', ''8500'')]"
  let ?free = "exStore [exSession ''f1'' ''1000''] []"
  have a: "concurrent exCfg
             \<le> length (redis_scan (redis ?full) (now exEnvNoDir) ''u'' (concurrent exCfg + 1))"
    by code_simp
  have b: "length (redis_scan (redis ?over) (now exEnvNoDir) ''u'' (concurrent exCfg + 1))
             < concurrent exCfg"
      "capacityExceeded exCfg exEnvNoDir ''u'' (fileSize exConfig) ?over"
    by code_simp+
  have c: "length (redis_scan (redis ?inflight) (now exEnvNoDir) ''u'' (concurrent exCfg + 1))
             < concurrent exCfg"
      "capacityExceeded exCfg exEnvNoDir ''u'' (fileSize exConfig) ?inflight"
    by code_simp+
  have d: "length (redis_scan (redis ?free) (now exEnvNoDir) ''u'' (concurrent exCfg + 1))
             < concurrent exCfg"
      "\<not> capacityExceeded exCfg exEnvNoDir ''u'' (fileSize exConfig) ?free"
      "dirAssertExists exEnvNoDir (targetDirectoryPath exConfig) = Some (OtherError ''DirectoryNotExists'')"
    by code_simp+
  have f: "length (redis_scan (redis ?free) (now exEnv) ''u'' (concurrent exCfg + 1))
             < concurrent exCfg"
      "\<not> capacityExceeded exCfg exEnv ''u'' (fileSize exConfig) ?free"
      "dirAssertExists exEnv (targetDirectoryPath exConfig) = None"
    by code_simp+
  from a b c d f
    start_check_order [of exCfg ?full exEnvNoDir "''u''" exConfig]
    start_check_order [of exCfg ?over exEnvNoDir "''u''" exConfig]
    start_check_order [of exCfg ?inflight exEnvNoDir "''u''" exConfig]
    start_check_order [of exCfg ?free exEnvNoDir "''u''" exConfig "OtherError ''DirectoryNotExists''"]
    start_check_order [of exCfg ?free exEnv "''u''" exConfig]
  show ?thesis by simp
qed

section \<open>A failed start writes nothing (C9)\<close>

text \<open>
  C9. When \<open>start\<close> rejects, the stores it leaves are the stores it was called with: no
  session is written and no durable record is created or changed. The error is that of
  the concurrency check, of the capacity check or of the directory check.
\<close>

theorem start_failure_leaves_stores:
  "start cfg e user config s = (Inl err, s') \<Longrightarrow>
   s' = s
   \<and> (err = UploadConcurrentLimit \<or> err = NotEnoughTotalUsage
       \<or> dirAssertExists e (targetDirectoryPath config) = Some err)"
  by (auto simp: start_eq split: if_splits option.splits)

text \<open>
  A \<open>start\<close> that the directory check rejects, on the store with one session.
\<close>

theorem start_failure_leaves_stores_witness:
  "fst (start exCfg exEnvNoDir ''u'' exConfig (exStore [exSession ''f1'' ''1000''] []))
     = Inl (OtherError ''DirectoryNotExists'')
   \<and> snd (start exCfg exEnvNoDir ''u'' exConfig (exStore [exSession ''f1'' ''1000''] []))
     = exStore [exSession ''f1'' ''1000''] []"
proof -
  let ?free = "exStore [exSession ''f1'' ''1000''] []"
  have r: "fst (start exCfg exEnvNoDir ''u'' exConfig ?free) = Inl (OtherError ''DirectoryNotExists'')"
    by code_simp
  then have "start exCfg exEnvNoDir ''u'' exConfig ?free
      = (Inl (OtherError ''DirectoryNotExists''), snd (start exCfg exEnvNoDir ''u'' exConfig ?free))"
    by (metis prod.collapse)
  from start_failure_leaves_stores [OF this] r show ?thesis by simp
qed

section \<open>A missing object (C7)\<close>

text \<open>
  C7 as stated fails: for a live session whose directory is gone and whose object is not
  in the object store, \<open>finish\<close> rejects with the error of the directory check, which runs
  first, not with the failure of the object store.
\<close>

theorem finish_missing_object_counterexample:
  "fst (getFileInfoByRedis exEnvNothing ''u'' ''f1'' (exStore [exSession ''f1'' ''1000''] []))
     = Inr \<lparr>fileName = ''a.png'', fileSize = Fin 1000, targetDirectoryPath = ''/docs/'',
            fileResourceType = ''NormalResources''\<rparr>
   \<and> ossAssertExists exEnvNothing (generateOSSFilePath exCfg exEnvNothing ''a.png'' ''f1'')
     = Some (OtherError ''ObjectNotFound'')
   \<and> finish exCfg exEnvNothing ''u'' ''f1'' (exStore [exSession ''f1'' ''1000''] [])
     = (Inl (OtherError ''DirectoryNotExists''), exStore [exSession ''f1'' ''1000''] [])"
  by code_simp

text \<open>
  C7 (amended). For a session that loads, when the object does not exist at the derived
  path, \<open>finish\<close> rejects and leaves the stores as they are: no file row, no link and no
  usage row is written. The error is the failure of the object store, unchanged, when the
  directory check before it passes, and the error of the directory check when that check
  fails.
\<close>

theorem finish_missing_object:
  "getFileInfoByRedis e user fuuid s = (Inr info, s) \<Longrightarrow>
   ossAssertExists e (generateOSSFilePath cfg e (fileName info) fuuid) = Some err \<Longrightarrow>
   (dirAssertExists e (targetDirectoryPath info) = None
      \<longrightarrow> finish cfg e user fuuid s = (Inl err, s))
   \<and> (\<exists>err'. finish cfg e user fuuid s = (Inl err', s))
   \<and> (dirAssertExists e (targetDirectoryPath info) = Some derr
      \<longrightarrow> finish cfg e user fuuid s = (Inl derr, s))"
  by (simp add: finish_def Let_def split: option.splits)

text \<open>
  The session \<open>f1\<close> with no object in the object store, its directory in place and its
  directory gone.
\<close>

theorem finish_missing_object_witness:
  "finish exCfg exEnvNoObject ''u'' ''f1'' (exStore [exSession ''f1'' ''1000''] [(''u'', ''500'')])
     = (Inl (OtherError ''ObjectNotFound''), exStore [exSession ''f1'' ''1000''] [(''u'', ''500'')])
   \<and> finish exCfg exEnvNothing ''u'' ''f1'' (exStore [exSession ''f1'' ''1000''] [(''u'', ''500'')])
     = (Inl (OtherError ''DirectoryNotExists''), exStore [exSession ''f1'' ''1000''] [(''u'', ''500'')])"
proof -
  let ?st = "exStore [exSession ''f1'' ''1000''] [(''u'', ''500'')]"
  let ?info = "\<lparr>fileName = ''a.png'', fileSize = Fin 1000, targetDirectoryPath = ''/docs/'',
                fileResourceType = ''NormalResources''\<rparr>"
  have load: "getFileInfoByRedis exEnvNoObject ''u'' ''f1'' ?st = (Inr ?info, ?st)"
    by code_simp
  have gone: "ossAssertExists exEnvNoObject
                (generateOSSFilePath exCfg exEnvNoObject (fileName ?info) ''f1'')
              = Some (OtherError ''ObjectNotFound'')"
    by code_simp
  have dir: "dirAssertExists exEnvNoObject (targetDirectoryPath ?info) = None"
    by code_simp
  have load': "getFileInfoByRedis exEnvNothing ''u'' ''f1'' ?st = (Inr ?info, ?st)"
    by code_simp
  have gone': "ossAssertExists exEnvNothing
                (generateOSSFilePath exCfg exEnvNothing (fileName ?info) ''f1'')
              = Some (OtherError ''ObjectNotFound'')"
    by code_simp
  have dir': "dirAssertExists exEnvNothing (targetDirectoryPath ?info)
              = Some (OtherError ''DirectoryNotExists'')"
    by code_simp
  from finish_missing_object [OF load gone] dir
  have a: "finish exCfg exEnvNoObject ''u'' ''f1'' ?st = (Inl (OtherError ''ObjectNotFound''), ?st)"
    by blast
  from finish_missing_object [OF load' gone', where derr = "OtherError ''DirectoryNotExists''"] dir'
  have b: "finish exCfg exEnvNothing ''u'' ''f1'' ?st = (Inl (OtherError ''DirectoryNotExists''), ?st)"
    by blast
  from a b show ?thesis by blast
qed

section \<open>The sizes of the sessions in flight (C8)\<close>

text \<open>
  C8 as stated fails. With five live sessions of 2400 bytes each, three upload slots and
  a limit of 10000, the scan gives four keys; \<open>assertConcurrentFileSize(0)\<close> adds up 9600
  and passes, while the sizes of all the live sessions add up to 12000. And with a base of
  \<open>2^53 = 9007199254740992\<close>, one session of 1 byte and a limit of \<open>2^53\<close>, the base plus
  the size is above the limit, yet the sum of the two doubles is \<open>2^53\<close> and the check
  passes.
\<close>

theorem in_flight_sum_counterexample:
  "assertConcurrentFileSize exCfg exEnv ''u'' (Fin 0)
      (exStore [exSession ''f1'' ''2400'', exSession ''f2'' ''2400'', exSession ''f3'' ''2400'',
                exSession ''f4'' ''2400'', exSession ''f5'' ''2400''] [])
     = (Inr (), exStore [exSession ''f1'' ''2400'', exSession ''f2'' ''2400'', exSession ''f3'' ''2400'',
                exSession ''f4'' ''2400'', exSession ''f5'' ''2400''] [])
   \<and> map (sessionSize
               (redis (exStore [exSession ''f1'' ''2400'', exSession ''f2'' ''2400'', exSession ''f3'' ''2400'',
                exSession ''f4'' ''2400'', exSession ''f5'' ''2400''] [])) (now exEnv))
         (userKeys (redis (exStore [exSession ''f1'' ''2400'', exSession ''f2'' ''2400'', exSession ''f3'' ''2400'',
                exSession ''f4'' ''2400'', exSession ''f5'' ''2400''] [])) (now exEnv) ''u'')
       = [Fin 2400, Fin 2400, Fin 2400, Fin 2400, Fin 2400]
   \<and> totalSize exCfg = Fin 10000
   \<and> (10000 :: rat) < 0 + (2400 + 2400 + 2400 + 2400 + 2400)
   \<and> sessionSize (redis (exStore [exSession ''f1'' ''1''] [])) (now exEnv) (''u'', ''f1'') = Fin 1
   \<and> totalSize exCfgTight = Fin 9007199254740992
   \<and> (9007199254740992 :: rat) < 9007199254740992 + 1
   \<and> assertConcurrentFileSize exCfgTight exEnv ''u'' (Fin 9007199254740992)
        (exStore [exSession ''f1'' ''1''] [])
     = (Inr (), exStore [exSession ''f1'' ''1''] [])"
  by code_simp

text \<open>
  C8 (amended). \<open>assertConcurrentFileSize(baseTotal)\<close> adds to \<open>baseTotal\<close>, one
  JavaScript addition after the other, the size of every key the scan returns: at most
  \<open>concurrent + 1\<close> of the live sessions of the user, and all of them when the user has no
  more than that. It rejects with \<open>NotEnoughTotalUsage\<close> exactly when the sum is strictly
  above \<open>totalSize\<close>, and leaves the stores as they are. A session without a size, or
  whose size \<open>Number\<close> reads as \<open>NaN\<close>, adds 0; any other size adds the number \<open>Number\<close>
  reads. The sum is the exact sum when the base and the sizes are integers that are not
  negative and the sum is at most \<open>2^53\<close>.
\<close>

theorem in_flight_sum:
  "assertConcurrentFileSize cfg e user baseTotal s =
     (if jsGreater
           (inFlightTotal (redis s) (now e) baseTotal
              (redis_scan (redis s) (now e) user (concurrent cfg + 1)))
           (totalSize cfg)
      then (Inl NotEnoughTotalUsage, s) else (Inr (), s))
   \<and> inFlightTotal (redis s) (now e) baseTotal [] = baseTotal
   \<and> inFlightTotal (redis s) (now e) baseTotal (keys @ [key])
       = jsAdd (inFlightTotal (redis s) (now e) baseTotal keys) (sessionSize (redis s) (now e) key)
   \<and> (length (userKeys (redis s) (now e) user) \<le> concurrent cfg + 1
      \<longrightarrow> redis_scan (redis s) (now e) user (concurrent cfg + 1) = userKeys (redis s) (now e) user)
   \<and> (map_of (redis_hash_of (redis s) (now e) key) ''fileSize'' = None
      \<longrightarrow> sessionSize (redis s) (now e) key = Fin 0)
   \<and> (map_of (redis_hash_of (redis s) (now e) key) ''fileSize'' = Some v \<and> NumberOfString v = NaN
      \<longrightarrow> sessionSize (redis s) (now e) key = Fin 0)
   \<and> (map_of (redis_hash_of (redis s) (now e) key) ''fileSize'' = Some v \<and> NumberOfString v \<noteq> NaN
      \<longrightarrow> sessionSize (redis s) (now e) key = NumberOfString v)
   \<and> (list_all (\<lambda>z. 0 \<le> z) zs \<and> 0 \<le> b \<and> b + sum_list zs \<le> 2 ^ 53 \<and> baseTotal = Fin (of_int b)
        \<and> map (sessionSize (redis s) (now e)) (redis_scan (redis s) (now e) user (concurrent cfg + 1))
            = map (\<lambda>z. Fin (of_int z)) zs
      \<longrightarrow> inFlightTotal (redis s) (now e) baseTotal
            (redis_scan (redis s) (now e) user (concurrent cfg + 1))
          = Fin (of_int (b + sum_list zs)))"
proof -
  have nonNaN: "x \<noteq> NaN \<Longrightarrow> orZero x = x" for x
    by (cases x) simp_all
  have readable: "map_of (redis_hash_of (redis s) (now e) key) ''fileSize'' = Some v \<and> NumberOfString v \<noteq> NaN
      \<longrightarrow> sessionSize (redis s) (now e) key = NumberOfString v"
    by (simp add: sessionSize_value nonNaN)
  have exact: "list_all (\<lambda>z. 0 \<le> z) zs \<and> 0 \<le> b \<and> b + sum_list zs \<le> 2 ^ 53 \<and> baseTotal = Fin (of_int b)
        \<and> map (sessionSize (redis s) (now e)) (redis_scan (redis s) (now e) user (concurrent cfg + 1))
            = map (\<lambda>z. Fin (of_int z)) zs
      \<longrightarrow> inFlightTotal (redis s) (now e) baseTotal
            (redis_scan (redis s) (now e) user (concurrent cfg + 1))
          = Fin (of_int (b + sum_list zs))"
    using inFlightTotal_exact [of zs b "redis s" "now e"
        "redis_scan (redis s) (now e) user (concurrent cfg + 1)"]
    by blast
  have all: "length (userKeys (redis s) (now e) user) \<le> concurrent cfg + 1
      \<longrightarrow> redis_scan (redis s) (now e) user (concurrent cfg + 1) = userKeys (redis s) (now e) user"
    using scan_all [of "redis s" "now e" user "concurrent cfg + 1"] by blast
  have step: "inFlightTotal (redis s) (now e) baseTotal (keys @ [key])
       = jsAdd (inFlightTotal (redis s) (now e) baseTotal keys) (sessionSize (redis s) (now e) key)"
    by (simp add: inFlightTotal_def)
  have nil: "inFlightTotal (redis s) (now e) baseTotal [] = baseTotal"
    by (simp add: inFlightTotal_def)
  have none: "map_of (redis_hash_of (redis s) (now e) key) ''fileSize'' = None
      \<longrightarrow> sessionSize (redis s) (now e) key = Fin 0"
    by (simp add: sessionSize_unreadable)
  have nan: "map_of (redis_hash_of (redis s) (now e) key) ''fileSize'' = Some v \<and> NumberOfString v = NaN
      \<longrightarrow> sessionSize (redis s) (now e) key = Fin 0"
    by (simp add: sessionSize_value)
  from assertConcurrentFileSize_eq [of cfg e user baseTotal s] nil step all none nan readable exact
  show ?thesis by blast
qed

text \<open>
  Three live sessions with the sizes 2400, \<open>abc\<close> and none: the sizes are 2400, 0 and 0,
  a base of 9000 is rejected and a base of 7000 passes. A size written \<open>1e3\<close> adds 1000.
\<close>

theorem in_flight_sum_witness:
  "assertConcurrentFileSize exCfg exEnv ''u'' (Fin 9000) exMixed = (Inl NotEnoughTotalUsage, exMixed)
   \<and> assertConcurrentFileSize exCfg exEnv ''u'' (Fin 7000) exMixed = (Inr (), exMixed)
   \<and> redis_scan (redis exMixed) (now exEnv) ''u'' (concurrent exCfg + 1)
       = [(''u'', ''f1''), (''u'', ''f2''), (''u'', ''f3'')]
   \<and> sessionSize (redis exMixed) (now exEnv) (''u'', ''f1'') = Fin 2400
   \<and> sessionSize (redis exMixed) (now exEnv) (''u'', ''f2'') = Fin 0
   \<and> sessionSize (redis exMixed) (now exEnv) (''u'', ''f3'') = Fin 0
   \<and> inFlightTotal (redis exMixed) (now exEnv) (Fin 9000)
        (redis_scan (redis exMixed) (now exEnv) ''u'' (concurrent exCfg + 1)) = Fin 11400
   \<and> sessionSize (redis (exStore [exSession ''f1'' ''1e3''] [])) (now exEnv) (''u'', ''f1'') = Fin 1000"
proof -
  let ?keys = "redis_scan (redis exMixed) (now exEnv) ''u'' (concurrent exCfg + 1)"
  let ?exp = "exStore [exSession ''f1'' ''1e3''] []"
  have few: "length (userKeys (redis exMixed) (now exEnv) ''u'') \<le> concurrent exCfg + 1"
    by code_simp
  have keys: "userKeys (redis exMixed) (now exEnv) ''u'' = [(''u'', ''f1''), (''u'', ''f2''), (''u'', ''f3'')]"
    by code_simp
  have f1: "map_of (redis_hash_of (redis exMixed) (now exEnv) (''u'', ''f1'')) ''fileSize''
              = Some ''2400''"
      "NumberOfString ''2400'' = Fin 2400"
    by code_simp+
  have f2: "map_of (redis_hash_of (redis exMixed) (now exEnv) (''u'', ''f2'')) ''fileSize'' = Some ''abc''"
      "NumberOfString ''abc'' = NaN"
    by code_simp+
  have f3: "map_of (redis_hash_of (redis exMixed) (now exEnv) (''u'', ''f3'')) ''fileSize'' = None"
    by code_simp
  have ex: "map_of (redis_hash_of (redis ?exp) (now exEnv) (''u'', ''f1'')) ''fileSize'' = Some ''1e3''"
      "NumberOfString ''1e3'' = Fin 1000"
    by code_simp+
  have limit: "totalSize exCfg = Fin 10000"
    by code_simp
  note a = in_flight_sum [of exCfg exEnv "''u''" "Fin 9000" exMixed "[]" "(''u'', ''f1'')" "''2400''"
      "[2400, 0, 0]" 9000]
  note b = in_flight_sum [of exCfg exEnv "''u''" "Fin 7000" exMixed "[]" "(''u'', ''f2'')" "''abc''"
      "[2400, 0, 0]" 7000]
  note c = in_flight_sum [of exCfg exEnv "''u''" "Fin 7000" exMixed "[]" "(''u'', ''f3'')" "''abc''"
      "[2400, 0, 0]" 7000]
  note d = in_flight_sum [of exCfg exEnv "''u''" "Fin 7000" ?exp "[]" "(''u'', ''f1'')" "''1e3''"
      "[]" 7000]
  from a few keys have scan: "?keys = [(''u'', ''f1''), (''u'', ''f2''), (''u'', ''f3'')]" by simp
  from a f1 have s1: "sessionSize (redis exMixed) (now exEnv) (''u'', ''f1'') = Fin 2400" by simp
  from b f2 have s2: "sessionSize (redis exMixed) (now exEnv) (''u'', ''f2'') = Fin 0" by simp
  from c f3 have s3: "sessionSize (redis exMixed) (now exEnv) (''u'', ''f3'') = Fin 0" by simp
  from d ex have s4: "sessionSize (redis ?exp) (now exEnv) (''u'', ''f1'') = Fin 1000" by simp
  have sizes: "map (sessionSize (redis exMixed) (now exEnv)) ?keys
      = map (\<lambda>z. Fin (of_int z)) [2400, 0, 0]"
    unfolding scan by (simp add: s1 s2 s3)
  from a sizes have t9: "inFlightTotal (redis exMixed) (now exEnv) (Fin 9000) ?keys = Fin 11400"
    by simp
  from b sizes have t7: "inFlightTotal (redis exMixed) (now exEnv) (Fin 7000) ?keys = Fin 9400"
    by simp
  from a t9 limit have r9: "assertConcurrentFileSize exCfg exEnv ''u'' (Fin 9000) exMixed
      = (Inl NotEnoughTotalUsage, exMixed)"
    by simp
  from b t7 limit have r7: "assertConcurrentFileSize exCfg exEnv ''u'' (Fin 7000) exMixed
      = (Inr (), exMixed)"
    by simp
  from r9 r7 scan s1 s2 s3 t9 s4 show ?thesis by blast
qed

section \<open>A successful finish (C3)\<close>

text \<open>
  C3 as stated fails. A session of 1 byte of a user whose usage is \<open>2^53 =
  9007199254740992\<close>, under a limit of \<open>2^80\<close>: \<open>finish\<close> succeeds and the usage row it
  writes is \<open>9007199254740992\<close> again, the double nearest to the sum; the usage has not
  grown by the size of the file.
\<close>

theorem finish_usage_counterexample:
  "fst (getFileInfoByRedis exEnv ''u'' ''f1''
          (exStore [exSession ''f1'' ''1''] [(''u'', ''9007199254740992'')]))
     = Inr \<lparr>fileName = ''a.png'', fileSize = Fin 1, targetDirectoryPath = ''/docs/'',
            fileResourceType = ''NormalResources''\<rparr>
   \<and> currentUsage (exStore [exSession ''f1'' ''1''] [(''u'', ''9007199254740992'')]) ''u''
     = Fin 9007199254740992
   \<and> fst (finish exCfgWide exEnv ''u'' ''f1''
            (exStore [exSession ''f1'' ''1''] [(''u'', ''9007199254740992'')]))
     = Inr ()
   \<and> cloudStorageConfigs (snd (finish exCfgWide exEnv ''u'' ''f1''
            (exStore [exSession ''f1'' ''1''] [(''u'', ''9007199254740992'')])))
     = [(''u'', ''9007199254740992'')]
   \<and> currentUsage (snd (finish exCfgWide exEnv ''u'' ''f1''
            (exStore [exSession ''f1'' ''1''] [(''u'', ''9007199254740992'')]))) ''u''
     = Fin 9007199254740992
   \<and> (9007199254740992 :: rat) \<noteq> 9007199254740992 + 1"
  by code_simp

text \<open>
  C3 (amended). When \<open>finish\<close> succeeds, the usage row of the user afterwards holds the
  string of the sum, as JavaScript adds two numbers, of the usage read and the size of
  the session's file; when both are integers and their sum is at most \<open>2^53\<close> in
  magnitude, the usage afterwards is exactly the usage read plus the size. One file row
  with the identifier of the file and one link from the user to the file are added, the
  payload being the conversion state (region and the step \<open>None\<close>) when the resource type
  is in \<open>whiteboardResourceType\<close> and empty otherwise; and the session is deleted, so that
  \<open>finish\<close> with the same identifier then rejects with \<open>FileNotFound\<close>, whatever the
  surroundings of that call.
\<close>

theorem finish_success:
  "finish cfg e user fuuid s = (Inr (), s') \<Longrightarrow>
   (\<exists>info. getFileInfoByRedis e user fuuid s = (Inr info, s)
      \<and> map_of (cloudStorageConfigs s') user
          = Some (jsString (jsAdd (currentUsage s user) (fileSize info)))
      \<and> (currentUsage s user = Fin (of_int a) \<and> fileSize info = Fin (of_int b) \<and> \<bar>a + b\<bar> \<le> 2 ^ 53
         \<longrightarrow> currentUsage s' user = Fin (of_int (a + b)))
      \<and> cloudStorageFiles s' = cloudStorageFiles s @
            [\<lparr>file_name = fileName info, file_size = fileSize info,
              file_url = ossHost e @ ''/'' @ generateOSSFilePath cfg e (fileName info) fuuid,
              file_uuid = fuuid, directory_path = targetDirectoryPath info,
              resource_type = fileResourceType info,
              payload = (if fileResourceType info \<in> set (whiteboardResourceType cfg)
                         then ConvertPayload (convertRegion cfg) ConvertStepNone
                         else EmptyPayload)\<rparr>]
      \<and> cloudStorageUserFiles s' = cloudStorageUserFiles s @ [(user, fuuid)])
   \<and> redis s' = redis_del (redis s) (user, fuuid)
   \<and> map_of (redis s') (user, fuuid) = None
   \<and> (\<forall>e'. finish cfg e' user fuuid s' = (Inl FileNotFound, s'))"
proof -
  assume ok: "finish cfg e user fuuid s = (Inr (), s')"
  obtain r s1 where load: "getFileInfoByRedis e user fuuid s = (r, s1)"
    by (cases "getFileInfoByRedis e user fuuid s")
  with getFileInfoByRedis_state [of e user fuuid s] have s1: "s1 = s" by simp
  from ok load obtain info where r: "r = Inr info"
    by (cases r) (auto simp: finish_def)
  let ?path = "generateOSSFilePath cfg e (fileName info) fuuid"
  let ?total = "jsAdd (currentUsage s user) (fileSize info)"
  from ok load r s1 have
    s': "s' = (updateTotalUsage user ?total
                 (insertFile cfg user (fileName info) (fileSize info) (ossHost e @ ''/'' @ ?path)
                    fuuid (targetDirectoryPath info) (fileResourceType info) s))
               \<lparr>redis := redis_del (redis s) (user, fuuid)\<rparr>"
    by (auto simp: finish_def Let_def getTotalUsageByUpdated_eq insertFile_def updateTotalUsage_def
        split: option.splits if_splits)
  have del: "redis s' = redis_del (redis s) (user, fuuid)"
    by (simp add: s' updateTotalUsage_def insertFile_def)
  have usage: "map_of (cloudStorageConfigs s') user = Some (jsString ?total)"
    by (simp add: s' updateTotalUsage_def insertFile_def map_of_upsert)
  have exact: "currentUsage s user = Fin (of_int a) \<and> fileSize info = Fin (of_int b) \<and> \<bar>a + b\<bar> \<le> 2 ^ 53
         \<longrightarrow> currentUsage s' user = Fin (of_int (a + b))"
  proof (intro impI)
    assume h: "currentUsage s user = Fin (of_int a) \<and> fileSize info = Fin (of_int b) \<and> \<bar>a + b\<bar> \<le> 2 ^ 53"
    then have small: "\<bar>a + b\<bar> \<le> 2 ^ 53" by simp
    from h have "?total = jsAdd (Fin (of_int a)) (Fin (of_int b))" by simp
    also have "\<dots> = Fin (of_int (a + b))" by (rule jsAdd_exact [OF small])
    finally have total: "?total = Fin (of_int (a + b))" .
    from usage have row: "map_of (cloudStorageConfigs s') user = Some (jsString (Fin (of_int (a + b))))"
      by (simp only: total)
    have "currentUsage s' user = orZero (NumberOfString (jsString (Fin (of_int (a + b)))))"
      unfolding currentUsage_def findOne_total_usage_def by (simp only: row option.case Number.simps)
    also have "\<dots> = orZero (Fin (of_int (a + b)))"
      by (simp only: Number_jsString [OF small])
    finally show "currentUsage s' user = Fin (of_int (a + b))" by simp
  qed
  have files: "cloudStorageFiles s' = cloudStorageFiles s @
            [\<lparr>file_name = fileName info, file_size = fileSize info,
              file_url = ossHost e @ ''/'' @ ?path,
              file_uuid = fuuid, directory_path = targetDirectoryPath info,
              resource_type = fileResourceType info,
              payload = (if fileResourceType info \<in> set (whiteboardResourceType cfg)
                         then ConvertPayload (convertRegion cfg) ConvertStepNone
                         else EmptyPayload)\<rparr>]"
    by (simp add: s' updateTotalUsage_def insertFile_def generateFilePayload_def)
  have links: "cloudStorageUserFiles s' = cloudStorageUserFiles s @ [(user, fuuid)]"
    by (simp add: s' updateTotalUsage_def insertFile_def)
  have again: "\<forall>e'. finish cfg e' user fuuid s' = (Inl FileNotFound, s')"
    using finish_after_delete [OF del] by simp
  have gone: "map_of (redis s') (user, fuuid) = None"
    by (simp only: del redis_del_absent)
  from load r s1 have "getFileInfoByRedis e user fuuid s = (Inr info, s)" by simp
  with usage exact files links del gone again show ?thesis by blast
qed

text \<open>The slide deck \<open>f2\<close> of 3000 bytes, finished by a user with a usage of 500.\<close>

theorem finish_success_witness:
  "finish exCfg exEnv ''u'' ''f2'' (exStore [exSession ''f1'' ''1000'', exSlides ''f2'' ''3000''] [(''u'', ''500'')])
     = (Inr (),
        \<lparr>redis = [exSession ''f1'' ''1000''],
         cloudStorageFiles =
           [\<lparr>file_name = ''deck.pptx'', file_size = Fin 3000,
             file_url = ''https://oss.example/PREFIX/2021-10/19/f2/f2.pptx'',
             file_uuid = ''f2'', directory_path = ''/docs/'',
             resource_type = ''WhiteboardProjector'',
             payload = ConvertPayload ''cn-hz'' ConvertStepNone\<rparr>],
         cloudStorageUserFiles = [(''u'', ''f2'')],
         cloudStorageConfigs = [(''u'', ''3500'')]\<rparr>)
   \<and> currentUsage (exStore [exSession ''f1'' ''1000'', exSlides ''f2'' ''3000''] [(''u'', ''500'')]) ''u''
       = Fin 500
   \<and> currentUsage (snd (finish exCfg exEnv ''u'' ''f2''
          (exStore [exSession ''f1'' ''1000'', exSlides ''f2'' ''3000''] [(''u'', ''500'')]))) ''u''
       = Fin 3500
   \<and> fst (finish exCfg exEnv ''u'' ''f2'' (snd (finish exCfg exEnv ''u'' ''f2''
          (exStore [exSession ''f1'' ''1000'', exSlides ''f2'' ''3000''] [(''u'', ''500'')]))))
       = Inl FileNotFound"
proof -
  let ?st = "exStore [exSession ''f1'' ''1000'', exSlides ''f2'' ''3000''] [(''u'', ''500'')]"
  let ?st' = "\<lparr>redis = [exSession ''f1'' ''1000''],
         cloudStorageFiles =
           [\<lparr>file_name = ''deck.pptx'', file_size = Fin 3000,
             file_url = ''https://oss.example/PREFIX/2021-10/19/f2/f2.pptx'',
             file_uuid = ''f2'', directory_path = ''/docs/'',
             resource_type = ''WhiteboardProjector'',
             payload = ConvertPayload ''cn-hz'' ConvertStepNone\<rparr>],
         cloudStorageUserFiles = [(''u'', ''f2'')],
         cloudStorageConfigs = [(''u'', ''3500'')]\<rparr>"
  let ?info = "\<lparr>fileName = ''deck.pptx'', fileSize = Fin 3000, targetDirectoryPath = ''/docs/'',
               fileResourceType = ''WhiteboardProjector''\<rparr>"
  have run: "finish exCfg exEnv ''u'' ''f2'' ?st = (Inr (), ?st')"
    by code_simp
  have before: "currentUsage ?st ''u'' = Fin (of_int 500)"
    by code_simp
  have load: "getFileInfoByRedis exEnv ''u'' ''f2'' ?st = (Inr ?info, ?st)"
    by code_simp
  have size: "fileSize ?info = Fin (of_int 3000)" by simp
  from finish_success [OF run, of 500 3000] load
  have after: "currentUsage ?st' ''u'' = Fin (of_int (500 + 3000))"
    and again: "finish exCfg exEnv ''u'' ''f2'' ?st' = (Inl FileNotFound, ?st')"
    using before size by auto
  from run before after again show ?thesis by simp
qed

section \<open>The object path at start and at finish (C4)\<close>

text \<open>
  C4 does not hold of the code. \<open>finish\<close> derives the path again from the clock of its own
  call. A \<open>start\<close> at 2021-10-19 23:59:00 UTC issues the path of the 19th; the client
  uploads the object there; \<open>finish\<close> two minutes later, within the life of the session,
  derives the path of the 20th and rejects with the failure of the object store.
\<close>

theorem finish_path_after_midnight:
  "fst (start exCfg exEnv ''u'' exConfig (exStore [] []))
     = Inr \<lparr>fileUUID = ''f1'', ossFilePath = ''PREFIX/2021-10/19/f1/f1.png'',
            ossDomain = ''https://oss.example'', policy = ''policy'', signature = ''signature''\<rparr>
   \<and> utcDate (now exEnv) = (2021, 10, 19)
   \<and> utcDate (now exEnvLater) = (2021, 10, 20)
   \<and> now exEnvLater - now exEnv = 120000
   \<and> ossAssertExists exEnvLater ''PREFIX/2021-10/19/f1/f1.png'' = None
   \<and> generateOSSFilePath exCfg exEnvLater ''a.png'' ''f1'' = ''PREFIX/2021-10/20/f1/f1.png''
   \<and> fst (finish exCfg exEnvLater ''u'' ''f1'' (snd (start exCfg exEnv ''u'' exConfig (exStore [] []))))
     = Inl (OtherError ''ObjectNotFound'')"
  by code_simp

section \<open>The form of the object path (C5)\<close>

text \<open>
  C5 as stated fails: at 2021-10-19 20:00:00 UTC in a process eight hours east of UTC the
  path carries the 20th, the local date, while the UTC date is the 19th.
\<close>

theorem object_path_utc_counterexample:
  "generateOSSFilePath exCfg exEnvEast ''a.png'' ''f1'' = ''PREFIX/2021-10/20/f1/f1.png''
   \<and> utcDate (now exEnvEast) = (2021, 10, 19)
   \<and> spec_objectPath exCfg (now exEnvEast) ''a.png'' ''f1'' = ''PREFIX/2021-10/19/f1/f1.png''"
  by code_simp

text \<open>
  C5 (amended). The path is the prefix, the year and month, the day, the identifier
  twice, and the extension of the file name, with \<open>/\<close> between them as in
  \<open>prefix/yyyy-MM/dd/id/id.ext\<close>. The date is the date of the call in the time zone of the
  process: the year on at least four digits, the month and the day on two. It is the UTC
  date when the zone is UTC. Of the file name only the extension enters the path: two
  names with the same extension give the same path.
\<close>

theorem object_path_form:
  "generateOSSFilePath cfg e fname fuuid =
     prefixPath cfg @ ''/'' @ renderDate (localDate (utcOffsetMinutes e) (now e))
       @ ''/'' @ fuuid @ ''/'' @ fuuid @ extname fname
   \<and> renderDate (y, m, d) =
       addLeadingZeros (if 0 < y then y else 1 - y) 4 @ ''-'' @ addLeadingZeros m 2
         @ ''/'' @ addLeadingZeros d 2
   \<and> (0 < y \<and> y < 10000 \<longrightarrow> length (addLeadingZeros y 4) = 4)
   \<and> (0 < m \<and> m < 100 \<longrightarrow> length (addLeadingZeros m 2) = 2)
   \<and> (0 < d \<and> d < 100 \<longrightarrow> length (addLeadingZeros d 2) = 2)
   \<and> (utcOffsetMinutes e = 0
        \<longrightarrow> generateOSSFilePath cfg e fname fuuid = spec_objectPath cfg (now e) fname fuuid)
   \<and> (extname fname = extname fname'
        \<longrightarrow> generateOSSFilePath cfg e fname fuuid = generateOSSFilePath cfg e fname' fuuid)"
  using length_addLeadingZeros [of y 4] length_addLeadingZeros [of m 2]
    length_addLeadingZeros [of d 2]
  by (simp add: generateOSSFilePath_def format_yyyy_MM_dd_def renderDate_def spec_objectPath_def
      utcDate_def)

text \<open>
  Two file names with the extension \<open>.pdf\<close> on 2021-10-19 in a process whose zone is UTC.
\<close>

theorem object_path_form_witness:
  "generateOSSFilePath exCfg exEnv ''report.final.pdf'' ''f1'' = ''PREFIX/2021-10/19/f1/f1.pdf''
   \<and> generateOSSFilePath exCfg exEnv ''notes.pdf'' ''f1'' = ''PREFIX/2021-10/19/f1/f1.pdf''
   \<and> spec_objectPath exCfg (now exEnv) ''report.final.pdf'' ''f1'' = ''PREFIX/2021-10/19/f1/f1.pdf''
   \<and> localDate (utcOffsetMinutes exEnv) (now exEnv) = (2021, 10, 19)
   \<and> length (addLeadingZeros 2021 4) = 4 \<and> length (addLeadingZeros 10 2) = 2
   \<and> length (addLeadingZeros 19 2) = 2"
proof -
  have zone: "utcOffsetMinutes exEnv = 0" by code_simp
  have ext: "extname ''report.final.pdf'' = extname ''notes.pdf''" by code_simp
  have path: "generateOSSFilePath exCfg exEnv ''report.final.pdf'' ''f1'' = ''PREFIX/2021-10/19/f1/f1.pdf''"
    by code_simp
  have day: "localDate (utcOffsetMinutes exEnv) (now exEnv) = (2021, 10, 19)" by code_simp
  note form = object_path_form [of exCfg exEnv "''report.final.pdf''" "''f1''" 2021 10 19 "''notes.pdf''"]
  from form zone have utc: "generateOSSFilePath exCfg exEnv ''report.final.pdf'' ''f1''
      = spec_objectPath exCfg (now exEnv) ''report.final.pdf'' ''f1''"
    by blast
  from form ext have same: "generateOSSFilePath exCfg exEnv ''report.final.pdf'' ''f1''
      = generateOSSFilePath exCfg exEnv ''notes.pdf'' ''f1''"
    by blast
  have "0 < (2021::int) \<and> (2021::int) < 10000" "0 < (10::int) \<and> (10::int) < 100"
    "0 < (19::int) \<and> (19::int) < 100"
    by simp_all
  with form have len: "length (addLeadingZeros 2021 4) = 4" "length (addLeadingZeros 10 2) = 2"
    "length (addLeadingZeros 19 2) = 2"
    by blast+
  from utc path have spec: "spec_objectPath exCfg (now exEnv) ''report.final.pdf'' ''f1''
      = ''PREFIX/2021-10/19/f1/f1.pdf''"
    by simp
  from same path have other: "generateOSSFilePath exCfg exEnv ''notes.pdf'' ''f1''
      = ''PREFIX/2021-10/19/f1/f1.pdf''"
    by simp
  from path other spec day len show ?thesis by blast
qed

section \<open>Sessions that finish does not find (C6)\<close>

text \<open>
  C6 as stated fails in both directions of its equivalence. A session whose four fields
  are present, with a numeric size and the empty string as file name, is rejected with
  \<open>FileNotFound\<close>. And a session that loads is rejected with \<open>FileNotFound\<close> when that is the
  failure the object store propagates.
\<close>

theorem finish_not_found_counterexample:
  "finish exCfg exEnv ''u'' ''f1'' exNameless = (Inl FileNotFound, exNameless)
   \<and> \<not> spec_sessionUnusable (redis exNameless) (now exEnv) (''u'', ''f1'')
   \<and> finish exCfg exEnvOssNotFound ''u'' ''f1'' (exStore [exSession ''f1'' ''1000''] [])
       = (Inl FileNotFound, exStore [exSession ''f1'' ''1000''] [])
   \<and> \<not> spec_sessionUnusable (redis (exStore [exSession ''f1'' ''1000''] []))
         (now exEnvOssNotFound) (''u'', ''f1'')"
  by code_simp

text \<open>
  C6 (amended). The load of the session rejects with \<open>FileNotFound\<close> if and only if one
  of file name, directory path and resource type is missing or the empty string, or the
  size is missing, empty or a string that \<open>Number\<close> reads as \<open>NaN\<close>. \<open>finish\<close> then
  rejects with \<open>FileNotFound\<close> and leaves the stores as they are, whatever the
  collaborators would answer. That is the case of every identifier with no session under
  it, never issued or expired. When the session loads, a \<open>FileNotFound\<close> of \<open>finish\<close> is the
  answer of the directory check on the directory of the session, or, that check passed,
  the answer of the object store on the path \<open>finish\<close> derives from the file name of the
  session.
\<close>

theorem finish_file_not_found:
  "(fst (getFileInfoByRedis e user fuuid s) = Inl FileNotFound)
     = sessionUnusable (redis s) (now e) (user, fuuid)
   \<and> (sessionUnusable (redis s) (now e) (user, fuuid)
      \<longrightarrow> finish cfg e user fuuid s = (Inl FileNotFound, s))
   \<and> (list_all (\<lambda>(k, h, ex). k \<noteq> (user, fuuid) \<or> ex \<le> now e) (redis s)
      \<longrightarrow> finish cfg e user fuuid s = (Inl FileNotFound, s))
   \<and> (\<not> sessionUnusable (redis s) (now e) (user, fuuid)
        \<and> fst (finish cfg e user fuuid s) = Inl FileNotFound
      \<longrightarrow> (\<exists>info. getFileInfoByRedis e user fuuid s = (Inr info, s)
             \<and> (dirAssertExists e (targetDirectoryPath info) = Some FileNotFound
                \<or> (dirAssertExists e (targetDirectoryPath info) = None
                    \<and> ossAssertExists e (generateOSSFilePath cfg e (fileName info) fuuid)
                        = Some FileNotFound))))"
proof (intro conjI impI)
  show "(fst (getFileInfoByRedis e user fuuid s) = Inl FileNotFound)
     = sessionUnusable (redis s) (now e) (user, fuuid)"
    by (rule getFileInfoByRedis_rejects)
next
  assume "sessionUnusable (redis s) (now e) (user, fuuid)"
  then show "finish cfg e user fuuid s = (Inl FileNotFound, s)"
    by (simp add: finish_def getFileInfoByRedis_unusable)
next
  assume "list_all (\<lambda>(k, h, ex). k \<noteq> (user, fuuid) \<or> ex \<le> now e) (redis s)"
  then have "redis_hash_of (redis s) (now e) (user, fuuid) = []"
    by (rule hash_of_expired)
  then show "finish cfg e user fuuid s = (Inl FileNotFound, s)"
    by (simp add: finish_def getFileInfoByRedis_empty)
next
  assume a: "\<not> sessionUnusable (redis s) (now e) (user, fuuid)
             \<and> fst (finish cfg e user fuuid s) = Inl FileNotFound"
  then obtain info where load: "getFileInfoByRedis e user fuuid s = (Inr info, s)"
    using getFileInfoByRedis_usable by blast
  from a load have "dirAssertExists e (targetDirectoryPath info) = Some FileNotFound
                \<or> (dirAssertExists e (targetDirectoryPath info) = None
                    \<and> ossAssertExists e (generateOSSFilePath cfg e (fileName info) fuuid)
                        = Some FileNotFound)"
    by (auto simp: finish_def Let_def getTotalUsageByUpdated_eq split: option.splits if_splits)
  with load show "\<exists>info. getFileInfoByRedis e user fuuid s = (Inr info, s)
             \<and> (dirAssertExists e (targetDirectoryPath info) = Some FileNotFound
                \<or> (dirAssertExists e (targetDirectoryPath info) = None
                    \<and> ossAssertExists e (generateOSSFilePath cfg e (fileName info) fuuid)
                        = Some FileNotFound))"
    by blast
qed

text \<open>
  An identifier never issued; a session at the instant it expires; a session whose size
  is \<open>abc\<close>; a session with an empty file name; and a session that loads while the object
  store fails with \<open>FileNotFound\<close> on the path of the file. A session whose size is
  written \<open>1e3\<close> loads, with the size 1000.
\<close>

theorem finish_file_not_found_witness:
  "finish exCfg exEnv ''u'' ''f9'' (exStore [exSession ''f1'' ''1000''] [])
     = (Inl FileNotFound, exStore [exSession ''f1'' ''1000''] [])
   \<and> finish exCfg exEnvExpired ''u'' ''f1'' (exStore [exSession ''f1'' ''1000''] [])
     = (Inl FileNotFound, exStore [exSession ''f1'' ''1000''] [])
   \<and> finish exCfg exEnv ''u'' ''f1'' (exStore [exSession ''f1'' ''abc''] [])
     = (Inl FileNotFound, exStore [exSession ''f1'' ''abc''] [])
   \<and> finish exCfg exEnv ''u'' ''f1'' exNameless = (Inl FileNotFound, exNameless)
   \<and> \<not> sessionUnusable (redis (exStore [exSession ''f1'' ''1000''] [])) (now exEnvOssNotFound) (''u'', ''f1'')
   \<and> fst (finish exCfg exEnvOssNotFound ''u'' ''f1'' (exStore [exSession ''f1'' ''1000''] []))
       = Inl FileNotFound
   \<and> dirAssertExists exEnvOssNotFound ''/docs/'' = None
   \<and> ossAssertExists exEnvOssNotFound ''PREFIX/2021-10/19/f1/f1.png'' = Some FileNotFound
   \<and> \<not> sessionUnusable (redis (exStore [exSession ''f1'' ''1e3''] [])) (now exEnv) (''u'', ''f1'')
   \<and> fst (getFileInfoByRedis exEnv ''u'' ''f1'' (exStore [exSession ''f1'' ''1e3''] []))
       = Inr \<lparr>fileName = ''a.png'', fileSize = Fin 1000, targetDirectoryPath = ''/docs/'',
              fileResourceType = ''NormalResources''\<rparr>"
proof -
  let ?st = "exStore [exSession ''f1'' ''1000''] []"
  let ?bad = "exStore [exSession ''f1'' ''abc''] []"
  let ?exp = "exStore [exSession ''f1'' ''1e3''] []"
  let ?info = "\<lparr>fileName = ''a.png'', fileSize = Fin 1000, targetDirectoryPath = ''/docs/'',
              fileResourceType = ''NormalResources''\<rparr>"
  have never: "list_all (\<lambda>(k, h, ex). k \<noteq> (''u'', ''f9'') \<or> ex \<le> now exEnv) (redis ?st)"
    by code_simp
  have expired: "list_all (\<lambda>(k, h, ex). k \<noteq> (''u'', ''f1'') \<or> ex \<le> now exEnvExpired) (redis ?st)"
    by code_simp
  have nan: "sessionUnusable (redis ?bad) (now exEnv) (''u'', ''f1'')"
    by code_simp
  have nameless: "sessionUnusable (redis exNameless) (now exEnv) (''u'', ''f1'')"
    by code_simp
  have usable: "\<not> sessionUnusable (redis ?st) (now exEnvOssNotFound) (''u'', ''f1'')"
    by code_simp
  have late: "fst (finish exCfg exEnvOssNotFound ''u'' ''f1'' ?st) = Inl FileNotFound"
    by code_simp
  have load: "getFileInfoByRedis exEnvOssNotFound ''u'' ''f1'' ?st = (Inr ?info, ?st)"
    by code_simp
  have dir: "dirAssertExists exEnvOssNotFound ''/docs/'' = None"
    by code_simp
  have path: "generateOSSFilePath exCfg exEnvOssNotFound ''a.png'' ''f1'' = ''PREFIX/2021-10/19/f1/f1.png''"
    by code_simp
  have loads: "fst (getFileInfoByRedis exEnv ''u'' ''f1'' ?exp) = Inr ?info"
    by code_simp
  from finish_file_not_found [of exEnv "''u''" "''f9''" ?st exCfg] never
  have c1: "finish exCfg exEnv ''u'' ''f9'' ?st = (Inl FileNotFound, ?st)" by blast
  from finish_file_not_found [of exEnvExpired "''u''" "''f1''" ?st exCfg] expired
  have c2: "finish exCfg exEnvExpired ''u'' ''f1'' ?st = (Inl FileNotFound, ?st)" by blast
  from finish_file_not_found [of exEnv "''u''" "''f1''" ?bad exCfg] nan
  have c3: "finish exCfg exEnv ''u'' ''f1'' ?bad = (Inl FileNotFound, ?bad)" by blast
  from finish_file_not_found [of exEnv "''u''" "''f1''" exNameless exCfg] nameless
  have c4: "finish exCfg exEnv ''u'' ''f1'' exNameless = (Inl FileNotFound, exNameless)" by blast
  from finish_file_not_found [of exEnvOssNotFound "''u''" "''f1''" ?st exCfg] usable late
  obtain info where i: "getFileInfoByRedis exEnvOssNotFound ''u'' ''f1'' ?st = (Inr info, ?st)"
    and d: "dirAssertExists exEnvOssNotFound (targetDirectoryPath info) = Some FileNotFound
            \<or> (dirAssertExists exEnvOssNotFound (targetDirectoryPath info) = None
                \<and> ossAssertExists exEnvOssNotFound
                     (generateOSSFilePath exCfg exEnvOssNotFound (fileName info) ''f1'')
                   = Some FileNotFound)"
    by blast
  from i load have info: "info = ?info" by simp
  from d dir have c5: "ossAssertExists exEnvOssNotFound ''PREFIX/2021-10/19/f1/f1.png'' = Some FileNotFound"
    unfolding info by (simp add: path)
  from finish_file_not_found [of exEnv "''u''" "''f1''" ?exp exCfg] loads
  have c6: "\<not> sessionUnusable (redis ?exp) (now exEnv) (''u'', ''f1'')" by simp
  from c1 c2 c3 c4 usable late dir c5 c6 loads show ?thesis by blast
qed

section \<open>The session read back (C10)\<close>




end
